theory Spec2Isabelle
  imports Main "HOL-Library.Sublist"
begin

section \<open>The memory pool of app.py\<close>

text \<open>
  The program keeps one global list \<open>_chunks\<close> of groups; a group is a list of
  \<open>bytearray\<close> blocks, the most recently added one last. Five request handlers read and
  change it. The model passes the pool explicitly: a handler takes the pool and returns
  the new pool together with its response. Each handler runs to completion before the
  next one starts (the lock of the source), so the model is sequential.

  Names that start with an underscore in the source lose it here: \<open>_alloc_mb\<close> is
  \<open>alloc_mb\<close>, \<open>_current_mb\<close> is \<open>current_mb\<close>, \<open>_chunks\<close> is \<open>chunks\<close>.
\<close>

subsection \<open>Blocks, groups, pool\<close>

text \<open>
  A block is a \<open>bytearray\<close>. The program never reads or writes its bytes, only its
  length, so a block is modelled by its length in bytes.
\<close>

datatype bytearray = Bytearray (len: nat)

type_synonym group = "bytearray list"
type_synonym pool = "group list"

definition CHUNK_MB_DEFAULT :: int where
  "CHUNK_MB_DEFAULT = 8"

subsection \<open>Exceptions and the platform\<close>

text \<open>
  \<open>bytearray(n)\<close> raises \<open>ValueError\<close> for a negative count and \<open>MemoryError\<close> when
  the platform cannot reserve \<open>n\<close> bytes. The platform is a parameter of the model: \<open>cap\<close>
  is the number of bytes that can still be reserved while the request runs. A successful
  reservation of \<open>n\<close> bytes leaves \<open>cap - n\<close>.
\<close>

datatype exn = MemoryError | ValueError

definition new_bytearray :: "nat \<Rightarrow> int \<Rightarrow> exn + (bytearray \<times> nat)" where
  "new_bytearray cap n =
     (if n < 0 then Inl ValueError
      else if cap < nat n then Inl MemoryError
      else Inr (Bytearray (nat n), cap - nat n))"

subsection \<open>\<open>_alloc_mb\<close>\<close>

text \<open>
  \<^verbatim>\<open>
  def _alloc_mb(mb, chunk_mb=CHUNK_MB_DEFAULT):
      blocks = []
      remain = mb
      while remain > 0:
          take = min(chunk_mb, remain)
          blocks.append(bytearray(take * 1024 * 1024))
          remain -= take
      return blocks
  \<close>
  With \<open>chunk_mb = 0\<close> the loop never ends, so the loop is a partial function:
  \<open>None\<close> is the run that does not return (lemma \<open>alloc_mb_zero_chunk\<close>). For
  \<open>chunk_mb > 0\<close> it always returns (lemmas \<open>alloc_loop_ok\<close> and \<open>alloc_loop_oom\<close>).
\<close>

partial_function (option) alloc_loop ::
  "nat \<Rightarrow> int \<Rightarrow> int \<Rightarrow> bytearray list \<Rightarrow> (exn + bytearray list) option" where
  "alloc_loop cap chunk_mb remain blocks =
     (if remain > 0 then
        (let take = min chunk_mb remain in
         case new_bytearray cap (take * 1024 * 1024) of
           Inl e \<Rightarrow> Some (Inl e)
         | Inr (b, cap') \<Rightarrow> alloc_loop cap' chunk_mb (remain - take) (blocks @ [b]))
      else Some (Inr blocks))"

declare alloc_loop.simps [code]

definition alloc_mb :: "nat \<Rightarrow> int \<Rightarrow> int \<Rightarrow> (exn + bytearray list) option" where
  "alloc_mb cap mb chunk_mb = alloc_loop cap chunk_mb mb []"

subsection \<open>\<open>_current_mb\<close>\<close>

text \<open>
  \<^verbatim>\<open>
  def _current_mb():
      return sum(len(b) for group in _chunks for b in group) // (1024 * 1024)
  \<close>
\<close>

definition current_mb :: "pool \<Rightarrow> int" where
  "current_mb chunks = int (sum_list (map len (concat chunks)) div (1024 * 1024))"

subsection \<open>The release loop\<close>

text \<open>
  \<open>mem_free\<close> and the shrinking branch of \<open>mem_set\<close> run the same two nested loops
  (the counter is called \<open>remain\<close> in one and \<open>to_free\<close> in the other):
  \<^verbatim>\<open>
  while remain > 0 and _chunks:
      group = _chunks[-1]
      while group and remain > 0:
          b = group.pop()
          remain -= len(b) // (1024 * 1024)
      if not group:
          _chunks.pop()
  \<close>
  \<open>group\<close> is the last element of \<open>_chunks\<close> itself, not a copy: popping from it
  changes the pool (the variable is \<open>grp\<close> here). \<open>free_blocks\<close> is the inner loop,
  \<open>free_groups\<close> the outer one.
\<close>

function free_blocks :: "group \<Rightarrow> int \<Rightarrow> group \<times> int" where
  "free_blocks grp remain =
     (if grp \<noteq> [] \<and> remain > 0
      then free_blocks (butlast grp) (remain - int (len (last grp) div (1024 * 1024)))
      else (grp, remain))"
  by pat_completeness auto
termination
  by (relation "measure (\<lambda>(grp, remain). length grp)") auto

declare free_blocks.simps [simp del]

lemma free_blocks_exit: "free_blocks grp remain = (g, r) \<Longrightarrow> g = [] \<or> r \<le> 0"
proof (induction grp remain rule: free_blocks.induct)
  case (1 grp remain)
  show ?case
  proof (cases "grp \<noteq> [] \<and> remain > 0")
    case True
    with "1.prems" have "free_blocks (butlast grp)
        (remain - int (len (last grp) div (1024 * 1024))) = (g, r)"
      by (simp add: free_blocks.simps [of grp remain])
    with True "1.IH" show ?thesis by blast
  next
    case False
    with "1.prems" show ?thesis
      by (auto simp: free_blocks.simps [of grp remain])
  qed
qed

function free_groups :: "pool \<Rightarrow> int \<Rightarrow> pool \<times> int" where
  "free_groups chunks remain =
     (if remain > 0 \<and> chunks \<noteq> [] then
        (case free_blocks (last chunks) remain of
           (grp, remain') \<Rightarrow>
             if grp = [] then free_groups (butlast chunks) remain'
             else free_groups (butlast chunks @ [grp]) remain')
      else (chunks, remain))"
  by pat_completeness auto
termination
  apply (relation "measure (\<lambda>(chunks, remain). 2 * length chunks + (if remain > 0 then 1 else 0))")
    apply simp
   apply (auto dest: free_blocks_exit [OF sym])
  done

declare free_groups.simps [simp del]

subsection \<open>Request parameters and \<open>int(...)\<close>\<close>

text \<open>
  \<open>request.args\<close> is a dictionary from parameter names to their text, and
  \<open>request.args.get(k, d)\<close> is the text of \<open>k\<close>, or \<open>d\<close> when \<open>k\<close> is absent.
\<close>

type_synonym args = "string \<rightharpoonup> string"

definition args_get :: "args \<Rightarrow> string \<Rightarrow> string \<Rightarrow> string" where
  "args_get args k d = (case args k of None \<Rightarrow> d | Some v \<Rightarrow> v)"

text \<open>
  \<open>int(s)\<close> on a string reads a decimal literal: white space around it is dropped, a
  sign may come first, then digits, where single underscores may stand between two
  digits. Anything else raises \<open>ValueError\<close>, which is \<open>None\<close> here.

  A text is the decoded parameter, a sequence of code points; a \<open>char\<close> is a code point
  below 256. The white space that \<open>int\<close> drops is then: below 128 the six characters of
  C's \<open>isspace\<close> (tab, line feed, vertical tab, form feed, carriage return, space; the
  separators \<open>0x1C\<close> to \<open>0x1F\<close> are not dropped, although \<open>str.isspace\<close> holds for them),
  and above it the two Unicode spaces \<open>0x85\<close> and \<open>0xA0\<close>. The only decimal digits below
  256 are \<open>0\<close> to \<open>9\<close>. Code points from 256 on (digits and spaces of other scripts) are
  outside the type, and the bound that recent Python versions put on the number of
  digits (4300 by default) is not modelled: a longer literal has a value here.

  \<open>ascii_text\<close> holds for the texts of code points below 128. On them the model reads a
  text the same way whether a \<open>char\<close> is taken as a code point or as a byte of the
  encoded parameter.
\<close>

definition is_space :: "char \<Rightarrow> bool" where
  "is_space c =
     (let n = (of_char c :: nat) in (9 \<le> n \<and> n \<le> 13) \<or> n = 32 \<or> n = 133 \<or> n = 160)"

definition ascii_text :: "string \<Rightarrow> bool" where
  "ascii_text s = list_all (\<lambda>c. (of_char c :: nat) < 128) s"

definition is_digit :: "char \<Rightarrow> bool" where
  "is_digit c = (let n = (of_char c :: nat) in 48 \<le> n \<and> n \<le> 57)"

definition digit_val :: "char \<Rightarrow> nat" where
  "digit_val c = of_char c - 48"

fun digits :: "nat \<Rightarrow> string \<Rightarrow> nat option" where
  "digits acc [] = Some acc"
| "digits acc [c] = (if is_digit c then Some (10 * acc + digit_val c) else None)"
| "digits acc (c # d # cs) =
     (if is_digit c then digits (10 * acc + digit_val c) (d # cs)
      else if c = CHR ''_'' \<and> is_digit d then digits (10 * acc + digit_val d) cs
      else None)"

definition unsigned :: "string \<Rightarrow> nat option" where
  "unsigned s =
     (case s of [] \<Rightarrow> None
      | d # ds \<Rightarrow> if is_digit d then digits (digit_val d) ds else None)"

definition strip :: "string \<Rightarrow> string" where
  "strip s = rev (dropWhile is_space (rev (dropWhile is_space s)))"

definition py_int :: "string \<Rightarrow> int option" where
  "py_int s =
     (case strip s of
        [] \<Rightarrow> None
      | c # cs \<Rightarrow>
          if c = CHR ''-'' then map_option (\<lambda>n. - int n) (unsigned cs)
          else if c = CHR ''+'' then map_option int (unsigned cs)
          else map_option int (unsigned (c # cs)))"

subsection \<open>Responses\<close>

text \<open>
  The error texts of the source are Chinese; each is a constructor here:
  \<open>MbChunkMustBePositive\<close> is "mb/chunk must be > 0", \<open>AddLimit4096\<close> is "a single add
  is limited to 4096MB", \<open>ParamsMustBeInteger\<close> is "parameters must be integers",
  \<open>MbMustBeNonNegative\<close> is "mb must be >= 0", \<open>MbMustBePositive\<close> is "mb must be > 0".
  \<open>Rejected r\<close> is \<open>jsonify(error=r), 400\<close>. The other constructors are the
  \<open>jsonify(ok=True, ...)\<close> bodies with their fields in the source's order;
  \<open>SetMet\<close> is the body that carries the note "target already met". The fixed
  \<open>tip\<close> text of the status body is left out.
\<close>

datatype reason =
    MbChunkMustBePositive
  | AddLimit4096
  | ParamsMustBeInteger
  | MbMustBeNonNegative
  | MbMustBePositive

datatype response =
    Status int nat
  | Rejected reason
  | AddOk int int int
  | SetMet int
  | SetOk int
  | FreeOk int int
  | ClearOk int

fun status_code :: "response \<Rightarrow> nat" where
  "status_code (Rejected r) = 400"
| "status_code _ = 200"

text \<open>
  A handler either returns a response or lets an exception escape (\<open>Inl\<close>): nothing in
  the source catches \<open>MemoryError\<close>.
\<close>

type_synonym outcome = "exn + response"

subsection \<open>The handlers\<close>

text \<open>
  \<^verbatim>\<open>
  def mem_status():
      with _mem_lock:
          return jsonify(allocated_mb=_current_mb(), groups=len(_chunks), tip=...)
  \<close>
\<close>

definition mem_status :: "pool \<Rightarrow> response" where
  "mem_status chunks = Status (current_mb chunks) (length chunks)"

text \<open>
  \<^verbatim>\<open>
  def mem_add():
      try:
          mb = int(request.args.get("mb", "100"))
          chunk = int(request.args.get("chunk", str(CHUNK_MB_DEFAULT)))
          if mb <= 0 or chunk <= 0:
              return jsonify(error=...), 400
          if mb > 4096:
              return jsonify(error=...), 400
      except ValueError:
          return jsonify(error=...), 400
      blocks = _alloc_mb(mb, chunk)
      with _mem_lock:
          _chunks.append(blocks)
          total = _current_mb()
      return jsonify(ok=True, added_mb=mb, chunk_mb=chunk, total_mb=total)
  \<close>
  \<open>str(CHUNK_MB_DEFAULT)\<close> is the text \<open>8\<close>. The result is \<open>None\<close> when the handler
  does not return.
\<close>

definition mem_add :: "nat \<Rightarrow> args \<Rightarrow> pool \<Rightarrow> (pool \<times> outcome) option" where
  "mem_add cap args chunks =
     (case py_int (args_get args ''mb'' ''100'') of
        None \<Rightarrow> Some (chunks, Inr (Rejected ParamsMustBeInteger))
      | Some mb \<Rightarrow>
     (case py_int (args_get args ''chunk'' ''8'') of
        None \<Rightarrow> Some (chunks, Inr (Rejected ParamsMustBeInteger))
      | Some chunk \<Rightarrow>
          if mb \<le> 0 \<or> chunk \<le> 0 then Some (chunks, Inr (Rejected MbChunkMustBePositive))
          else if mb > 4096 then Some (chunks, Inr (Rejected AddLimit4096))
          else
            (case alloc_mb cap mb chunk of
               None \<Rightarrow> None
             | Some (Inl e) \<Rightarrow> Some (chunks, Inl e)
             | Some (Inr blocks) \<Rightarrow>
                 (let chunks' = chunks @ [blocks]; total = current_mb chunks'
                  in Some (chunks', Inr (AddOk mb chunk total))))))"

text \<open>
  \<^verbatim>\<open>
  def mem_set():
      try:
          target = int(request.args.get("mb", "0"))
          if target < 0:
              return jsonify(error=...), 400
      except ValueError:
          return jsonify(error=...), 400
      with _mem_lock:
          curr = _current_mb()
          if target == curr:
              return jsonify(ok=True, total_mb=curr, note=...)
          elif target > curr:
              blocks = _alloc_mb(target - curr, CHUNK_MB_DEFAULT)
              _chunks.append(blocks)
          else:
              to_free = curr - target
              (the release loop, on to_free)
          total = _current_mb()
      return jsonify(ok=True, total_mb=total)
  \<close>
\<close>

definition mem_set :: "nat \<Rightarrow> args \<Rightarrow> pool \<Rightarrow> (pool \<times> outcome) option" where
  "mem_set cap args chunks =
     (case py_int (args_get args ''mb'' ''0'') of
        None \<Rightarrow> Some (chunks, Inr (Rejected ParamsMustBeInteger))
      | Some target \<Rightarrow>
          if target < 0 then Some (chunks, Inr (Rejected MbMustBeNonNegative))
          else
            (let curr = current_mb chunks in
             if target = curr then Some (chunks, Inr (SetMet curr))
             else if target > curr then
               (case alloc_mb cap (target - curr) CHUNK_MB_DEFAULT of
                  None \<Rightarrow> None
                | Some (Inl e) \<Rightarrow> Some (chunks, Inl e)
                | Some (Inr blocks) \<Rightarrow>
                    (let chunks' = chunks @ [blocks]
                     in Some (chunks', Inr (SetOk (current_mb chunks')))))
             else
               (let to_free = curr - target; chunks' = fst (free_groups chunks to_free)
                in Some (chunks', Inr (SetOk (current_mb chunks'))))))"

text \<open>
  \<^verbatim>\<open>
  def mem_free():
      try:
          mb = int(request.args.get("mb", "0"))
          if mb <= 0:
              return jsonify(error=...), 400
      except ValueError:
          return jsonify(error=...), 400
      with _mem_lock:
          remain = mb
          (the release loop, on remain)
          total = _current_mb()
      return jsonify(ok=True, freed_request_mb=mb, total_mb=total)
  \<close>
  Nothing here allocates or loops without end, so the handler is a total function.
\<close>

definition mem_free :: "args \<Rightarrow> pool \<Rightarrow> pool \<times> response" where
  "mem_free args chunks =
     (case py_int (args_get args ''mb'' ''0'') of
        None \<Rightarrow> (chunks, Rejected ParamsMustBeInteger)
      | Some mb \<Rightarrow>
          if mb \<le> 0 then (chunks, Rejected MbMustBePositive)
          else
            (let remain = mb; chunks' = fst (free_groups chunks remain)
             in (chunks', FreeOk mb (current_mb chunks'))))"

text \<open>
  \<^verbatim>\<open>
  def mem_clear():
      with _mem_lock:
          _chunks.clear()
          total = _current_mb()
      return jsonify(ok=True, total_mb=total)
  \<close>
\<close>

definition mem_clear :: "pool \<Rightarrow> pool \<times> response" where
  "mem_clear chunks = (let chunks' = [] in (chunks', ClearOk (current_mb chunks')))"

section \<open>Auxiliary notions\<close>

text \<open>
  \<open>blocks_of chunk_mb mb\<close> is the closed form of the group that \<open>_alloc_mb\<close> builds:
  as many blocks of \<open>chunk_mb\<close> megabytes as fit into \<open>mb\<close>, then one smaller block for
  the rest, if there is a rest. It is not part of the program; the lemma
  \<open>alloc_loop_ok\<close> below relates the loop to it.
\<close>

definition blocks_of :: "int \<Rightarrow> int \<Rightarrow> bytearray list" where
  "blocks_of chunk_mb mb =
     (if mb \<le> 0 then []
      else replicate (nat (mb div chunk_mb)) (Bytearray (nat (chunk_mb * 1024 * 1024)))
           @ (if mb mod chunk_mb = 0 then []
              else [Bytearray (nat ((mb mod chunk_mb) * 1024 * 1024))]))"

text \<open>
  \<open>block_mb b\<close> is what the release loop subtracts for the block \<open>b\<close>, and
  \<open>blocks_mb\<close> is its sum over a list of blocks. \<open>whole_mb b\<close> says that the size of
  \<open>b\<close> is a positive multiple of 1 MiB, \<open>no_empty_group\<close> that no group of the pool is
  empty, and \<open>pool_ok\<close> is both together: the pools the handlers produce from the empty
  pool (lemmas \<open>pool_ok_empty\<close> to \<open>pool_ok_mem_clear\<close>).
\<close>

definition block_mb :: "bytearray \<Rightarrow> int" where
  "block_mb b = int (len b div (1024 * 1024))"

definition blocks_mb :: "bytearray list \<Rightarrow> int" where
  "blocks_mb bs = sum_list (map block_mb bs)"

definition whole_mb :: "bytearray \<Rightarrow> bool" where
  "whole_mb b = (0 < len b \<and> len b mod (1024 * 1024) = 0)"

definition no_empty_group :: "pool \<Rightarrow> bool" where
  "no_empty_group chunks = list_all (\<lambda>g. g \<noteq> []) chunks"

definition pool_ok :: "pool \<Rightarrow> bool" where
  "pool_ok chunks = (no_empty_group chunks \<and> list_all whole_mb (concat chunks))"


text \<open>
  The pool is empty when the program starts (\<open>_chunks = []\<close>), and it changes only
  through the handlers. \<open>reachable\<close> holds for the pools that a sequence of requests can
  produce. \<open>mem_status\<close> and the liveness endpoint do not change the pool.
\<close>

definition initial_chunks :: pool where
  "initial_chunks = []"

inductive reachable :: "pool \<Rightarrow> bool" where
  start: "reachable initial_chunks"
| add: "reachable chunks \<Longrightarrow> mem_add cap args chunks = Some (chunks', out) \<Longrightarrow> reachable chunks'"
| set: "reachable chunks \<Longrightarrow> mem_set cap args chunks = Some (chunks', out) \<Longrightarrow> reachable chunks'"
| free: "reachable chunks \<Longrightarrow> mem_free args chunks = (chunks', resp) \<Longrightarrow> reachable chunks'"
| clear: "reachable chunks \<Longrightarrow> mem_clear chunks = (chunks', resp) \<Longrightarrow> reachable chunks'"

section \<open>Allocation\<close>

lemma blocks_of_step:
  assumes "0 < chunk_mb" "0 < remain"
  shows "blocks_of chunk_mb remain =
     Bytearray (nat (min chunk_mb remain * 1024 * 1024))
       # blocks_of chunk_mb (remain - min chunk_mb remain)"
proof (cases "remain < chunk_mb")
  case True
  with assms show ?thesis by (simp add: blocks_of_def min_def)
next
  case False
  then have ge: "chunk_mb \<le> remain" by simp
  have d: "(remain - chunk_mb) div chunk_mb = remain div chunk_mb - 1"
    using assms div_add_self2 [of chunk_mb "remain - chunk_mb"] by simp
  have m: "(remain - chunk_mb) mod chunk_mb = remain mod chunk_mb"
    using assms by simp
  have "0 < remain div chunk_mb"
    using assms ge by (simp add: pos_imp_zdiv_pos_iff)
  then have s: "nat (remain div chunk_mb) = Suc (nat (remain div chunk_mb - 1))"
    by simp
  show ?thesis
  proof (cases "remain = chunk_mb")
    case True
    with assms show ?thesis by (simp add: blocks_of_def)
  next
    case False
    with ge have "0 < remain - chunk_mb" by simp
    with assms ge d m s show ?thesis
      by (simp add: blocks_of_def min_def)
  qed
qed

lemma alloc_loop_ok:
  assumes "0 < chunk_mb"
  shows "remain * 1048576 \<le> int cap \<Longrightarrow>
    alloc_loop cap chunk_mb remain blocks = Some (Inr (blocks @ blocks_of chunk_mb remain))"
proof (induction "nat remain" arbitrary: remain cap blocks rule: less_induct)
  case less
  show ?case
  proof (cases "0 < remain")
    case False
    then show ?thesis
      by (subst alloc_loop.simps) (simp add: blocks_of_def)
  next
    case True
    define take where "take = min chunk_mb remain"
    have t: "0 < take" "take \<le> remain"
      using assms True by (simp_all add: take_def)
    with less.prems have fit: "nat (take * 1048576) \<le> cap" by linarith
    have nb: "new_bytearray cap (take * 1024 * 1024) =
        Inr (Bytearray (nat (take * 1048576)), cap - nat (take * 1048576))"
      using t fit by (simp add: new_bytearray_def mult.commute)
    have "alloc_loop (cap - nat (take * 1048576)) chunk_mb (remain - take)
        (blocks @ [Bytearray (nat (take * 1048576))])
      = Some (Inr ((blocks @ [Bytearray (nat (take * 1048576))]) @ blocks_of chunk_mb (remain - take)))"
    proof (rule less.hyps)
      show "nat (remain - take) < nat remain" using t by linarith
      have "int (cap - nat (take * 1048576)) = int cap - take * 1048576"
        using t fit by simp
      then show "(remain - take) * 1048576 \<le> int (cap - nat (take * 1048576))"
        using less.prems by (simp add: algebra_simps)
    qed
    moreover have "blocks_of chunk_mb remain =
        Bytearray (nat (take * 1048576)) # blocks_of chunk_mb (remain - take)"
      using blocks_of_step [OF assms True] by (simp add: take_def)
    ultimately show ?thesis
      using True nb by (subst alloc_loop.simps) (simp add: take_def [symmetric])
  qed
qed

lemma alloc_loop_oom:
  assumes "0 < chunk_mb"
  shows "0 < remain \<Longrightarrow> int cap < remain * 1048576 \<Longrightarrow>
    alloc_loop cap chunk_mb remain blocks = Some (Inl MemoryError)"
proof (induction "nat remain" arbitrary: remain cap blocks rule: less_induct)
  case less
  define take where "take = min chunk_mb remain"
  have t: "0 < take" "take \<le> remain"
    using assms less.prems by (simp_all add: take_def)
  show ?case
  proof (cases "cap < nat (take * 1048576)")
    case True
    then have "new_bytearray cap (take * 1024 * 1024) = Inl MemoryError"
      using t by (simp add: new_bytearray_def)
    then show ?thesis
      using less.prems by (subst alloc_loop.simps) (simp add: take_def [symmetric])
  next
    case False
    then have nb: "new_bytearray cap (take * 1024 * 1024) =
        Inr (Bytearray (nat (take * 1048576)), cap - nat (take * 1048576))"
      using t by (simp add: new_bytearray_def mult.commute)
    have "alloc_loop (cap - nat (take * 1048576)) chunk_mb (remain - take)
        (blocks @ [Bytearray (nat (take * 1048576))]) = Some (Inl MemoryError)"
    proof (rule less.hyps)
      show "nat (remain - take) < nat remain" using t by linarith
      have "take * 1048576 \<le> int cap" using False t by simp
      then show "0 < remain - take" using less.prems by linarith
      have "int (cap - nat (take * 1048576)) = int cap - take * 1048576"
        using t False by simp
      then show "int (cap - nat (take * 1048576)) < (remain - take) * 1048576"
        using less.prems by (simp add: algebra_simps)
    qed
    then show ?thesis
      using less.prems nb by (subst alloc_loop.simps) (simp add: take_def [symmetric])
  qed
qed

text \<open>
  With \<open>chunk_mb = 0\<close> and something left to allocate, the loop of \<open>_alloc_mb\<close> makes no
  progress: the model has no result for it. The handlers never call it so.
\<close>

lemma alloc_loop_zero_chunk:
  assumes "alloc_loop cap chunk_mb remain blocks = Some r"
  shows "chunk_mb = 0 \<longrightarrow> remain \<le> 0"
  using assms
proof (induction rule: alloc_loop.raw_induct [rotated 1, consumes 1])
  case (1 f cap chunk_mb remain blocks r)
  show ?case
  proof (intro impI)
    assume z: "chunk_mb = 0"
    show "remain \<le> 0"
    proof (rule ccontr)
      assume "\<not> remain \<le> 0"
      then have pos: "0 < remain" by simp
      with z 1(2) have "f cap 0 remain (blocks @ [Bytearray 0]) = Some r"
        by (simp add: new_bytearray_def)
      from 1(1) [OF this] pos show False by simp
    qed
  qed
qed

lemma alloc_mb_zero_chunk: "0 < mb \<Longrightarrow> alloc_mb cap mb 0 = None"
  using alloc_loop_zero_chunk [of cap 0 mb "[]"]
  by (cases "alloc_mb cap mb 0") (auto simp: alloc_mb_def)

section \<open>The release loop\<close>

lemma blocks_mb_simps [simp]:
  "blocks_mb [] = 0"
  "blocks_mb (b # bs) = block_mb b + blocks_mb bs"
  "blocks_mb (xs @ ys) = blocks_mb xs + blocks_mb ys"
  by (simp_all add: blocks_mb_def)

lemma free_blocks_stop: "\<not> (grp \<noteq> [] \<and> remain > 0) \<Longrightarrow> free_blocks grp remain = (grp, remain)"
  by (subst free_blocks.simps) (rule if_not_P)

lemma free_blocks_pop:
  "grp \<noteq> [] \<Longrightarrow> remain > 0 \<Longrightarrow>
   free_blocks grp remain = free_blocks (butlast grp) (remain - block_mb (last grp))"
  by (simp add: free_blocks.simps [of grp remain] block_mb_def)

lemma free_blocks_spec:
  "free_blocks grp remain = (g, r) \<Longrightarrow>
   \<exists>popped. grp = g @ popped \<and> r = remain - blocks_mb popped"
proof (induction grp remain rule: free_blocks.induct)
  case (1 grp remain)
  show ?case
  proof (cases "grp \<noteq> [] \<and> remain > 0")
    case False
    with "1.prems" have "g = grp" "r = remain" by (simp_all add: free_blocks_stop)
    then show ?thesis by simp
  next
    case True
    with "1.prems" have "free_blocks (butlast grp)
        (remain - int (len (last grp) div (1024 * 1024))) = (g, r)"
      by (simp add: free_blocks.simps [of grp remain])
    from "1.IH" [OF True this] obtain popped where
      p: "butlast grp = g @ popped" "r = remain - int (len (last grp) div (1024 * 1024)) - blocks_mb popped"
      by blast
    from True have "grp = butlast grp @ [last grp]" by simp
    with p have "grp = g @ (popped @ [last grp])" by simp
    moreover from p have "r = remain - blocks_mb (popped @ [last grp])"
      by (simp add: block_mb_def)
    ultimately show ?thesis by blast
  qed
qed

lemma free_groups_stop:
  "\<not> (remain > 0 \<and> chunks \<noteq> []) \<Longrightarrow> free_groups chunks remain = (chunks, remain)"
  by (subst free_groups.simps) (rule if_not_P)

lemma free_groups_drop:
  "remain > 0 \<Longrightarrow> chunks \<noteq> [] \<Longrightarrow> free_blocks (last chunks) remain = ([], r) \<Longrightarrow>
   free_groups chunks remain = free_groups (butlast chunks) r"
  by (simp add: free_groups.simps [of chunks remain])

lemma free_groups_keep:
  assumes "remain > 0" "chunks \<noteq> []" "free_blocks (last chunks) remain = (g, r)" "g \<noteq> []"
  shows "free_groups chunks remain = (butlast chunks @ [g], r)"
proof -
  from assms have "r \<le> 0" using free_blocks_exit by blast
  then have "free_groups (butlast chunks @ [g]) r = (butlast chunks @ [g], r)"
    by (simp add: free_groups_stop)
  with assms show ?thesis by (simp add: free_groups.simps [of chunks remain])
qed

text \<open>The three ways one round of the outer loop can go.\<close>

lemma free_groups_cases:
  obtains (stop) "\<not> (remain > 0 \<and> chunks \<noteq> [])" "free_groups chunks remain = (chunks, remain)"
  | (drop) r where "remain > 0" "chunks \<noteq> []" "free_blocks (last chunks) remain = ([], r)"
      "free_groups chunks remain = free_groups (butlast chunks) r"
  | (keep) g r where "remain > 0" "chunks \<noteq> []" "free_blocks (last chunks) remain = (g, r)"
      "g \<noteq> []" "r \<le> 0" "free_groups chunks remain = (butlast chunks @ [g], r)"
proof (cases "remain > 0 \<and> chunks \<noteq> []")
  case False
  then show ?thesis using stop free_groups_stop by blast
next
  case True
  obtain g r where fb: "free_blocks (last chunks) remain = (g, r)"
    by (cases "free_blocks (last chunks) remain")
  show ?thesis
  proof (cases "g = []")
    case True
    with fb \<open>remain > 0 \<and> chunks \<noteq> []\<close> show ?thesis
      using drop free_groups_drop by blast
  next
    case False
    with fb \<open>remain > 0 \<and> chunks \<noteq> []\<close> show ?thesis
      using keep [of g r] free_groups_keep free_blocks_exit by blast
  qed
qed

lemma free_groups_exit: "free_groups chunks remain = (chunks', r) \<Longrightarrow> chunks' = [] \<or> r \<le> 0"
proof (induction "length chunks" arbitrary: chunks remain rule: less_induct)
  case less
  show ?case
  proof (cases chunks remain rule: free_groups_cases)
    case stop
    with less.prems show ?thesis by auto
  next
    case (drop r0)
    with less.prems have "free_groups (butlast chunks) r0 = (chunks', r)" by simp
    moreover from drop have "length (butlast chunks) < length chunks" by simp
    ultimately show ?thesis using less.hyps by blast
  next
    case (keep g r0)
    with less.prems show ?thesis by simp
  qed
qed

lemma free_groups_concat:
  "free_groups chunks remain = (chunks', r) \<Longrightarrow>
   \<exists>popped. concat chunks = concat chunks' @ popped \<and> r = remain - blocks_mb popped"
proof (induction "length chunks" arbitrary: chunks remain rule: less_induct)
  case less
  show ?case
  proof (cases chunks remain rule: free_groups_cases)
    case stop
    with less.prems show ?thesis by auto
  next
    case (drop r0)
    with less.prems have "free_groups (butlast chunks) r0 = (chunks', r)" by simp
    moreover from drop have "length (butlast chunks) < length chunks" by simp
    ultimately obtain p1 where
      p1: "concat (butlast chunks) = concat chunks' @ p1" "r = r0 - blocks_mb p1"
      using less.hyps by blast
    from free_blocks_spec [OF drop(3)] have
      p2: "r0 = remain - blocks_mb (last chunks)" by auto
    from drop have "concat chunks = concat (butlast chunks) @ last chunks"
      by (cases chunks rule: rev_cases) simp_all
    with p1 p2 have "concat chunks = concat chunks' @ (p1 @ last chunks)
        \<and> r = remain - blocks_mb (p1 @ last chunks)" by simp
    then show ?thesis by blast
  next
    case (keep g r0)
    from free_blocks_spec [OF keep(3)] obtain p where
      p: "last chunks = g @ p" "r0 = remain - blocks_mb p" by blast
    from keep have "concat chunks = concat (butlast chunks) @ last chunks"
      by (cases chunks rule: rev_cases) simp_all
    with p keep less.prems have "concat chunks = concat chunks' @ p \<and> r = remain - blocks_mb p"
      by auto
    then show ?thesis by blast
  qed
qed

lemma free_groups_shape:
  "free_groups chunks remain = (chunks', r) \<Longrightarrow>
   chunks' = [] \<or> (\<exists>k g. k < length chunks \<and> chunks' = take k chunks @ [g] \<and> prefix g (chunks ! k))"
proof (induction "length chunks" arbitrary: chunks remain rule: less_induct)
  case less
  show ?case
  proof (cases chunks remain rule: free_groups_cases)
    case stop
    show ?thesis
    proof (cases "chunks = []")
      case True
      with stop less.prems show ?thesis by simp
    next
      case False
      then have "length chunks - 1 < length chunks
          \<and> chunks = take (length chunks - 1) chunks @ [last chunks]
          \<and> prefix (last chunks) (chunks ! (length chunks - 1))"
        by (cases chunks rule: rev_cases) simp_all
      with stop less.prems show ?thesis by (metis prod.inject)
    qed
  next
    case (drop r0)
    with less.prems have "free_groups (butlast chunks) r0 = (chunks', r)" by simp
    moreover from drop have l: "length (butlast chunks) < length chunks" by simp
    ultimately have "chunks' = [] \<or> (\<exists>k g. k < length (butlast chunks)
        \<and> chunks' = take k (butlast chunks) @ [g] \<and> prefix g (butlast chunks ! k))"
      using less.hyps by blast
    then show ?thesis
    proof
      assume "chunks' = []" then show ?thesis by simp
    next
      assume "\<exists>k g. k < length (butlast chunks)
        \<and> chunks' = take k (butlast chunks) @ [g] \<and> prefix g (butlast chunks ! k)"
      then obtain k g where kg: "k < length (butlast chunks)"
        "chunks' = take k (butlast chunks) @ [g]" "prefix g (butlast chunks ! k)" by blast
      then have "k < length chunks" "take k (butlast chunks) = take k chunks"
        "butlast chunks ! k = chunks ! k"
        by (simp_all add: take_butlast nth_butlast)
      with kg show ?thesis by metis
    qed
  next
    case (keep g r0)
    from free_blocks_spec [OF keep(3)] have "prefix g (last chunks)"
      by (auto simp: prefix_def)
    with keep have "length chunks - 1 < length chunks
          \<and> butlast chunks @ [g] = take (length chunks - 1) chunks @ [g]
          \<and> prefix g (chunks ! (length chunks - 1))"
      by (cases chunks rule: rev_cases) simp_all
    with keep less.prems show ?thesis by (metis prod.inject)
  qed
qed

lemma no_empty_group_butlast:
  "no_empty_group chunks \<Longrightarrow> no_empty_group (butlast chunks)"
  by (cases chunks rule: rev_cases) (simp_all add: no_empty_group_def)

lemma no_empty_group_replace:
  "no_empty_group chunks \<Longrightarrow> g \<noteq> [] \<Longrightarrow> no_empty_group (butlast chunks @ [g])"
  by (cases chunks rule: rev_cases) (simp_all add: no_empty_group_def)

lemma free_groups_no_empty:
  "free_groups chunks remain = (chunks', r) \<Longrightarrow> no_empty_group chunks \<Longrightarrow> no_empty_group chunks'"
proof (induction "length chunks" arbitrary: chunks remain rule: less_induct)
  case less
  show ?case
  proof (cases chunks remain rule: free_groups_cases)
    case stop
    with less.prems show ?thesis by auto
  next
    case (drop r0)
    with less.prems have "free_groups (butlast chunks) r0 = (chunks', r)" by simp
    moreover from drop have "length (butlast chunks) < length chunks" by simp
    moreover from less.prems have "no_empty_group (butlast chunks)"
      by (simp add: no_empty_group_butlast)
    ultimately show ?thesis using less.hyps by blast
  next
    case (keep g r0)
    with less.prems have "chunks' = butlast chunks @ [g]" by simp
    with keep less.prems show ?thesis
      by (simp add: no_empty_group_replace)
  qed
qed

section \<open>Sizes\<close>

lemma whole_mb_block_mb:
  assumes "whole_mb b"
  shows "1 \<le> block_mb b \<and> int (len b) = block_mb b * 1048576"
proof -
  from assms have "1048576 dvd len b" and p: "0 < len b"
    by (simp_all add: whole_mb_def mod_eq_0_iff_dvd)
  then obtain k where k: "len b = 1048576 * k" by (elim dvdE)
  with p have "0 < k" by simp
  moreover from k have "len b div 1048576 = k" by simp
  ultimately show ?thesis using k by (simp add: block_mb_def)
qed

lemma blocks_mb_nonneg: "0 \<le> blocks_mb bs"
  by (induction bs) (simp_all add: block_mb_def)

lemma blocks_mb_pos: "list_all whole_mb bs \<Longrightarrow> bs \<noteq> [] \<Longrightarrow> 0 < blocks_mb bs"
proof (cases bs)
  case Nil
  assume "bs \<noteq> []" with Nil show ?thesis by simp
next
  case (Cons b bs')
  assume "list_all whole_mb bs"
  with Cons have "1 \<le> block_mb b" by (simp add: whole_mb_block_mb)
  with Cons blocks_mb_nonneg [of bs'] show ?thesis by simp
qed

lemma whole_sum_len:
  "list_all whole_mb bs \<Longrightarrow> int (sum_list (map len bs)) = blocks_mb bs * 1048576"
proof (induction bs)
  case Nil
  show ?case by simp
next
  case (Cons b bs)
  then have "int (len b) = block_mb b * 1048576" by (simp add: whole_mb_block_mb)
  with Cons show ?case by (simp add: algebra_simps)
qed

lemma current_mb_whole:
  assumes "list_all whole_mb (concat chunks)"
  shows "current_mb chunks = blocks_mb (concat chunks)"
proof -
  have "int (sum_list (map len (concat chunks))) = blocks_mb (concat chunks) * 1048576"
    using assms by (rule whole_sum_len)
  then have "int (sum_list (map len (concat chunks))) div 1048576 = blocks_mb (concat chunks)"
    by simp
  then show ?thesis by (simp add: current_mb_def zdiv_int)
qed

lemma nat_div_add_le: "(a::nat) div m + b div m \<le> (a + b) div m"
proof (cases "m = 0")
  case True
  then show ?thesis by simp
next
  case False
  have "a div m * m \<le> a" "b div m * m \<le> b" by simp_all
  then have "(a div m + b div m) * m \<le> a + b"
    by (simp add: add_mult_distrib add_mono)
  with False show ?thesis by (simp add: less_eq_div_iff_mult_less_eq)
qed

lemma blocks_mb_le_div: "blocks_mb bs \<le> int (sum_list (map len bs) div 1048576)"
proof (induction bs)
  case Nil
  show ?case by simp
next
  case (Cons b bs)
  have "len b div 1048576 + sum_list (map len bs) div 1048576
      \<le> (len b + sum_list (map len bs)) div 1048576"
    by (rule nat_div_add_le)
  then have "int (len b div 1048576) + int (sum_list (map len bs) div 1048576)
      \<le> int ((len b + sum_list (map len bs)) div 1048576)"
    by (simp only: of_nat_add [symmetric] of_nat_le_iff)
  moreover have "blocks_mb (b # bs) = int (len b div 1048576) + blocks_mb bs"
    by (simp add: block_mb_def)
  moreover have "sum_list (map len (b # bs)) = len b + sum_list (map len bs)"
    by simp
  ultimately show ?case using Cons by (simp only: add_left_mono order_trans [OF add_left_mono])
qed

lemma current_mb_nonneg: "0 \<le> current_mb chunks"
  by (simp add: current_mb_def)

lemma current_mb_empty: "current_mb [] = 0"
  by (simp add: current_mb_def)

text \<open>Removing blocks lowers the total by at least what the loop subtracted for them.\<close>

lemma current_mb_removed:
  assumes "concat chunks = concat chunks' @ popped"
  shows "current_mb chunks' + blocks_mb popped \<le> current_mb chunks"
proof -
  let ?a = "sum_list (map len (concat chunks'))" and ?b = "sum_list (map len popped)"
  have "?a div 1048576 + ?b div 1048576 \<le> (?a + ?b) div 1048576"
    by (rule nat_div_add_le)
  then have "int (?a div 1048576) + int (?b div 1048576) \<le> int ((?a + ?b) div 1048576)"
    by (simp only: of_nat_add [symmetric] of_nat_le_iff)
  moreover have "blocks_mb popped \<le> int (?b div 1048576)" by (rule blocks_mb_le_div)
  moreover have "current_mb chunks = int ((?a + ?b) div 1048576)"
    using assms by (simp add: current_mb_def)
  moreover have "current_mb chunks' = int (?a div 1048576)"
    by (simp add: current_mb_def)
  ultimately show ?thesis by (simp only: add_left_mono order_trans [OF add_left_mono])
qed

text \<open>Adding a group of whole megabytes raises the total by exactly their number.\<close>

lemma current_mb_append:
  assumes "list_all whole_mb blocks"
  shows "current_mb (chunks @ [blocks]) = current_mb chunks + blocks_mb blocks"
proof -
  have e: "int (sum_list (map len blocks)) = blocks_mb blocks * 1048576"
    using assms by (rule whole_sum_len)
  have n: "0 \<le> blocks_mb blocks" by (rule blocks_mb_nonneg)
  have "int (sum_list (map len blocks)) = int (nat (blocks_mb blocks) * 1048576)"
    using e n by simp
  then have "sum_list (map len blocks) = nat (blocks_mb blocks) * 1048576"
    by (simp only: of_nat_eq_iff)
  then have "(sum_list (map len (concat chunks)) + sum_list (map len blocks)) div 1048576
      = sum_list (map len (concat chunks)) div 1048576 + nat (blocks_mb blocks)"
    by simp
  with n show ?thesis by (simp add: current_mb_def)
qed

section \<open>The group that \<open>_alloc_mb\<close> builds\<close>

lemma blocks_of_nonpos: "mb \<le> 0 \<Longrightarrow> blocks_of chunk_mb mb = []"
  by (simp add: blocks_of_def)

lemma blocks_of_props:
  assumes "0 < chunk_mb"
  shows "list_all whole_mb (blocks_of chunk_mb mb) \<and> blocks_mb (blocks_of chunk_mb mb) = max 0 mb"
proof (induction "nat mb" arbitrary: mb rule: less_induct)
  case less
  show ?case
  proof (cases "0 < mb")
    case False
    then show ?thesis by (simp add: blocks_of_nonpos)
  next
    case True
    define take where "take = min chunk_mb mb"
    have t: "0 < take" "take \<le> mb" using assms True by (simp_all add: take_def)
    have step: "blocks_of chunk_mb mb = Bytearray (nat (take * 1048576)) # blocks_of chunk_mb (mb - take)"
      using blocks_of_step [OF assms True] by (simp add: take_def)
    have "nat (mb - take) < nat mb" using t by linarith
    then have ih: "list_all whole_mb (blocks_of chunk_mb (mb - take))"
      "blocks_mb (blocks_of chunk_mb (mb - take)) = max 0 (mb - take)"
      using less.hyps by blast+
    have n: "nat (take * 1048576) = nat take * 1048576"
      using t by (simp add: nat_mult_distrib)
    have w: "whole_mb (Bytearray (nat (take * 1048576)))"
      using t by (simp add: whole_mb_def n)
    have b: "block_mb (Bytearray (nat (take * 1048576))) = take"
      using t by (simp add: block_mb_def n)
    from step ih w b t show ?thesis by simp
  qed
qed

lemma blocks_of_nonempty: "0 < chunk_mb \<Longrightarrow> 0 < mb \<Longrightarrow> blocks_of chunk_mb mb \<noteq> []"
  by (simp add: blocks_of_step)

lemma alloc_mb_ok:
  "0 < chunk_mb \<Longrightarrow> mb * 1048576 \<le> int cap \<Longrightarrow>
   alloc_mb cap mb chunk_mb = Some (Inr (blocks_of chunk_mb mb))"
  by (simp add: alloc_mb_def alloc_loop_ok)

lemma alloc_mb_oom:
  "0 < chunk_mb \<Longrightarrow> 0 < mb \<Longrightarrow> int cap < mb * 1048576 \<Longrightarrow>
   alloc_mb cap mb chunk_mb = Some (Inl MemoryError)"
  by (simp add: alloc_mb_def alloc_loop_oom)

lemma current_mb_grow:
  "0 < chunk_mb \<Longrightarrow> 0 < mb \<Longrightarrow>
   current_mb (chunks @ [blocks_of chunk_mb mb]) = current_mb chunks + mb"
  using blocks_of_props [of chunk_mb mb] by (simp add: current_mb_append)

lemma mem_add_valid:
  assumes "py_int (args_get args ''mb'' ''100'') = Some mb"
    and "py_int (args_get args ''chunk'' ''8'') = Some chunk"
    and "0 < mb" "mb \<le> 4096" "0 < chunk"
  shows "mem_add cap args chunks =
     (if mb * 1048576 \<le> int cap
      then Some (chunks @ [blocks_of chunk mb], Inr (AddOk mb chunk (current_mb chunks + mb)))
      else Some (chunks, Inl MemoryError))"
  using assms by (simp add: mem_add_def alloc_mb_ok alloc_mb_oom current_mb_grow)

lemma mem_set_up:
  assumes "py_int (args_get args ''mb'' ''0'') = Some target"
    and "current_mb chunks < target"
  shows "mem_set cap args chunks =
     (if (target - current_mb chunks) * 1048576 \<le> int cap
      then Some (chunks @ [blocks_of 8 (target - current_mb chunks)], Inr (SetOk target))
      else Some (chunks, Inl MemoryError))"
proof -
  have "0 \<le> current_mb chunks" by (rule current_mb_nonneg)
  with assms show ?thesis
    by (simp add: mem_set_def CHUNK_MB_DEFAULT_def alloc_mb_ok alloc_mb_oom current_mb_grow)
qed

lemma mem_set_down:
  assumes "py_int (args_get args ''mb'' ''0'') = Some target"
    and "0 \<le> target" "target < current_mb chunks"
  shows "mem_set cap args chunks =
     Some (fst (free_groups chunks (current_mb chunks - target)),
           Inr (SetOk (current_mb (fst (free_groups chunks (current_mb chunks - target))))))"
  using assms by (simp add: mem_set_def Let_def)

lemma mem_free_valid:
  assumes "py_int (args_get args ''mb'' ''0'') = Some mb" and "0 < mb"
  shows "mem_free args chunks =
     (fst (free_groups chunks mb), FreeOk mb (current_mb (fst (free_groups chunks mb))))"
  using assms by (simp add: mem_free_def Let_def)

text \<open>The handlers that allocate always return.\<close>

lemma mem_add_returns: "mem_add cap args chunks \<noteq> None"
proof (cases "py_int (args_get args ''mb'' ''100'')")
  case None
  then show ?thesis by (simp add: mem_add_def)
next
  case (Some mb)
  note mb = this
  show ?thesis
  proof (cases "py_int (args_get args ''chunk'' ''8'')")
    case None
    with mb show ?thesis by (simp add: mem_add_def)
  next
    case (Some chunk)
    show ?thesis
    proof (cases "0 < mb \<and> mb \<le> 4096 \<and> 0 < chunk")
      case True
      with mb Some show ?thesis by (simp add: mem_add_valid)
    next
      case False
      with mb Some show ?thesis by (auto simp: mem_add_def)
    qed
  qed
qed

lemma mem_set_returns: "mem_set cap args chunks \<noteq> None"
proof (cases "py_int (args_get args ''mb'' ''0'')")
  case None
  then show ?thesis by (simp add: mem_set_def)
next
  case (Some target)
  consider "target < 0" | "target = current_mb chunks" | "current_mb chunks < target"
    | "0 \<le> target" "target < current_mb chunks" by linarith
  then show ?thesis
  proof cases
    case 1
    with Some show ?thesis by (simp add: mem_set_def)
  next
    case 2
    with Some current_mb_nonneg [of chunks] show ?thesis by (simp add: mem_set_def)
  next
    case 3
    with Some show ?thesis by (simp add: mem_set_up)
  next
    case 4
    with Some show ?thesis by (simp add: mem_set_down)
  qed
qed

section \<open>Properties of the handlers\<close>

lemmas request_eval =
  args_get_def py_int_def strip_def is_space_def unsigned_def is_digit_def digit_val_def

text \<open>
  C1. A valid Grow request (\<open>0 < mb \<le> 4096\<close>, \<open>0 < chunk\<close>) whose memory the platform
  can reserve returns, and the total it reports, which is also the total of the new pool,
  is the total before plus \<open>mb\<close>, whatever \<open>chunk\<close> is. The pool has one group more.
\<close>

theorem grow_total:
  assumes "py_int (args_get args ''mb'' ''100'') = Some mb"
    and "py_int (args_get args ''chunk'' ''8'') = Some chunk"
    and "0 < mb" "mb \<le> 4096" "0 < chunk"
    and "mb * 1048576 \<le> int cap"
  shows "\<exists>chunks'. mem_add cap args chunks
           = Some (chunks', Inr (AddOk mb chunk (current_mb chunks + mb)))
         \<and> current_mb chunks' = current_mb chunks + mb
         \<and> mem_status chunks' = Status (current_mb chunks + mb) (length chunks + 1)"
proof -
  have "mem_add cap args chunks
      = Some (chunks @ [blocks_of chunk mb], Inr (AddOk mb chunk (current_mb chunks + mb)))"
    using assms by (simp add: mem_add_valid)
  moreover have "current_mb (chunks @ [blocks_of chunk mb]) = current_mb chunks + mb"
    using assms by (simp add: current_mb_grow)
  ultimately show ?thesis by (simp add: mem_status_def)
qed

theorem grow_total_witness:
  "py_int (args_get [''mb'' \<mapsto> ''300'', ''chunk'' \<mapsto> ''7''] ''mb'' ''100'') = Some 300
   \<and> py_int (args_get [''mb'' \<mapsto> ''300'', ''chunk'' \<mapsto> ''7''] ''chunk'' ''8'') = Some 7
   \<and> (300::int) * 1048576 \<le> int 314572800
   \<and> (\<exists>chunks'. mem_add 314572800 [''mb'' \<mapsto> ''300'', ''chunk'' \<mapsto> ''7''] [[Bytearray 1048576]]
           = Some (chunks', Inr (AddOk 300 7 301))
         \<and> current_mb chunks' = 301
         \<and> mem_status chunks' = Status 301 2)"
proof -
  let ?args = "[''mb'' \<mapsto> ''300'', ''chunk'' \<mapsto> ''7'']"
  have a: "py_int (args_get ?args ''mb'' ''100'') = Some 300"
    by (simp add: request_eval)
  have b: "py_int (args_get ?args ''chunk'' ''8'') = Some 7"
    by (simp add: request_eval)
  have c: "(300::int) * 1048576 \<le> int 314572800" by simp
  have d: "current_mb [[Bytearray 1048576]] = 1" by (simp add: current_mb_def)
  from grow_total [OF a b _ _ _ c, of "[[Bytearray 1048576]]"] a b c d
  show ?thesis by (simp add: numeral_2_eq_2)
qed

text \<open>
  C3, as stated, does not hold: an out-of-memory failure while a group is built is not
  caught and answered with a rejection. The source catches only \<open>ValueError\<close>, around
  the parsing; \<open>_alloc_mb\<close> is called outside that \<open>try\<close>. With room for one block of
  8 MiB but not for two, a Grow of 16 MB ends with \<open>MemoryError\<close> leaving the handler.
\<close>

theorem grow_oom_counterexample:
  "mem_add 10485760 [''mb'' \<mapsto> ''16''] [] = Some ([], Inl MemoryError)"
proof -
  have "py_int (args_get [''mb'' \<mapsto> ''16''] ''mb'' ''100'') = Some 16"
    by (simp add: request_eval)
  moreover have "py_int (args_get [''mb'' \<mapsto> ''16''] ''chunk'' ''8'') = Some 8"
    by (simp add: request_eval)
  ultimately show ?thesis by (simp add: mem_add_valid)
qed

text \<open>
  C3, as the code has it. When the platform cannot reserve the \<open>mb\<close> megabytes of a valid
  Grow request, the \<open>MemoryError\<close> of the failing block is not caught: it leaves the
  handler, no response is built, and the pool is what it was before the request (the
  blocks reserved so far are dropped with the unfinished group).
\<close>

theorem grow_oom_escapes:
  assumes "py_int (args_get args ''mb'' ''100'') = Some mb"
    and "py_int (args_get args ''chunk'' ''8'') = Some chunk"
    and "0 < mb" "mb \<le> 4096" "0 < chunk"
    and "int cap < mb * 1048576"
  shows "mem_add cap args chunks = Some (chunks, Inl MemoryError)"
  using assms by (simp add: mem_add_valid)

theorem grow_oom_escapes_witness:
  "py_int (args_get [''mb'' \<mapsto> ''300'', ''chunk'' \<mapsto> ''7''] ''mb'' ''100'') = Some 300
   \<and> py_int (args_get [''mb'' \<mapsto> ''300'', ''chunk'' \<mapsto> ''7''] ''chunk'' ''8'') = Some 7
   \<and> int 314572799 < (300::int) * 1048576
   \<and> mem_add 314572799 [''mb'' \<mapsto> ''300'', ''chunk'' \<mapsto> ''7''] [[Bytearray 1048576]]
       = Some ([[Bytearray 1048576]], Inl MemoryError)"
proof -
  let ?args = "[''mb'' \<mapsto> ''300'', ''chunk'' \<mapsto> ''7'']"
  have a: "py_int (args_get ?args ''mb'' ''100'') = Some 300"
    by (simp add: request_eval)
  have b: "py_int (args_get ?args ''chunk'' ''8'') = Some 7"
    by (simp add: request_eval)
  have c: "int 314572799 < (300::int) * 1048576" by simp
  from grow_oom_escapes [OF a b _ _ _ c, of "[[Bytearray 1048576]]"] a b c
  show ?thesis by simp
qed

text \<open>
  Two texts at the edge of the white space of \<open>int\<close>: a separator below 128 is not
  dropped, so the text is refused; the no-break space is dropped.
\<close>

lemma py_int_separator_refused: "py_int [CHR 0x1C, CHR ''5''] = None"
  by (simp add: request_eval)

lemma py_int_no_break_space: "py_int [CHR 0xA0, CHR ''5''] = Some 5"
  by (simp add: request_eval)

text \<open>
  C5. A request with an invalid parameter is answered with a 400 rejection and leaves
  the pool as it was: for Grow, when \<open>mb\<close> or \<open>chunk\<close> is not an integer text or is
  \<open>\<le> 0\<close>; for Shrink, when \<open>mb\<close> is not an integer text or is \<open>\<le> 0\<close>; for Converge,
  when \<open>mb\<close> is not an integer text or is \<open>< 0\<close>. The reason is the one for a
  non-integer or the one for the violated sign condition, never the 4096 limit.
  "Not an integer text" is stated for the texts of code points below 128
  (\<open>ascii_text\<close>), where \<open>py_int s = None\<close> means that \<open>int(s)\<close> raises \<open>ValueError\<close>.
\<close>

theorem invalid_input_rejected:
  "((ascii_text (args_get args ''mb'' ''100'') \<and> py_int (args_get args ''mb'' ''100'') = None
      \<or> ascii_text (args_get args ''chunk'' ''8'') \<and> py_int (args_get args ''chunk'' ''8'') = None
      \<or> (\<exists>mb. py_int (args_get args ''mb'' ''100'') = Some mb \<and> mb \<le> 0)
      \<or> (\<exists>chunk. py_int (args_get args ''chunk'' ''8'') = Some chunk \<and> chunk \<le> 0))
     \<longrightarrow> (\<exists>r. mem_add cap args chunks = Some (chunks, Inr (Rejected r))
            \<and> status_code (Rejected r) = 400
            \<and> (r = ParamsMustBeInteger \<or> r = MbChunkMustBePositive)))
   \<and> ((ascii_text (args_get args ''mb'' ''0'') \<and> py_int (args_get args ''mb'' ''0'') = None
      \<or> (\<exists>mb. py_int (args_get args ''mb'' ''0'') = Some mb \<and> mb \<le> 0))
     \<longrightarrow> (\<exists>r. mem_free args chunks = (chunks, Rejected r)
            \<and> status_code (Rejected r) = 400
            \<and> (r = ParamsMustBeInteger \<or> r = MbMustBePositive)))
   \<and> ((ascii_text (args_get args ''mb'' ''0'') \<and> py_int (args_get args ''mb'' ''0'') = None
      \<or> (\<exists>target. py_int (args_get args ''mb'' ''0'') = Some target \<and> target < 0))
     \<longrightarrow> (\<exists>r. mem_set cap args chunks = Some (chunks, Inr (Rejected r))
            \<and> status_code (Rejected r) = 400
            \<and> (r = ParamsMustBeInteger \<or> r = MbMustBeNonNegative)))"
proof (intro conjI impI)
  assume "ascii_text (args_get args ''mb'' ''100'') \<and> py_int (args_get args ''mb'' ''100'') = None
      \<or> ascii_text (args_get args ''chunk'' ''8'') \<and> py_int (args_get args ''chunk'' ''8'') = None
      \<or> (\<exists>mb. py_int (args_get args ''mb'' ''100'') = Some mb \<and> mb \<le> 0)
      \<or> (\<exists>chunk. py_int (args_get args ''chunk'' ''8'') = Some chunk \<and> chunk \<le> 0)"
  then show "\<exists>r. mem_add cap args chunks = Some (chunks, Inr (Rejected r))
            \<and> status_code (Rejected r) = 400
            \<and> (r = ParamsMustBeInteger \<or> r = MbChunkMustBePositive)"
    by (cases "py_int (args_get args ''mb'' ''100'')";
        cases "py_int (args_get args ''chunk'' ''8'')")
       (auto simp: mem_add_def)
next
  assume "ascii_text (args_get args ''mb'' ''0'') \<and> py_int (args_get args ''mb'' ''0'') = None
      \<or> (\<exists>mb. py_int (args_get args ''mb'' ''0'') = Some mb \<and> mb \<le> 0)"
  then show "\<exists>r. mem_free args chunks = (chunks, Rejected r)
            \<and> status_code (Rejected r) = 400
            \<and> (r = ParamsMustBeInteger \<or> r = MbMustBePositive)"
    by (auto simp: mem_free_def)
next
  assume "ascii_text (args_get args ''mb'' ''0'') \<and> py_int (args_get args ''mb'' ''0'') = None
      \<or> (\<exists>target. py_int (args_get args ''mb'' ''0'') = Some target \<and> target < 0)"
  then show "\<exists>r. mem_set cap args chunks = Some (chunks, Inr (Rejected r))
            \<and> status_code (Rejected r) = 400
            \<and> (r = ParamsMustBeInteger \<or> r = MbMustBeNonNegative)"
    by (auto simp: mem_set_def)
qed

theorem invalid_input_rejected_witness:
  "ascii_text (args_get [''mb'' \<mapsto> ''1.5''] ''mb'' ''100'')
   \<and> py_int (args_get [''mb'' \<mapsto> ''1.5''] ''mb'' ''100'') = None
   \<and> ascii_text (args_get [''mb'' \<mapsto> ''1.5''] ''mb'' ''0'')
   \<and> py_int (args_get [''mb'' \<mapsto> ''1.5''] ''mb'' ''0'') = None
   \<and> (\<exists>r. mem_add 0 [''mb'' \<mapsto> ''1.5''] [[Bytearray 1048576]]
            = Some ([[Bytearray 1048576]], Inr (Rejected r)))
   \<and> (\<exists>r. mem_free [''mb'' \<mapsto> ''1.5''] [[Bytearray 1048576]]
            = ([[Bytearray 1048576]], Rejected r))
   \<and> (\<exists>r. mem_set 0 [''mb'' \<mapsto> ''1.5''] [[Bytearray 1048576]]
            = Some ([[Bytearray 1048576]], Inr (Rejected r)))
   \<and> py_int (args_get [''mb'' \<mapsto> ''-5'', ''chunk'' \<mapsto> ''0''] ''mb'' ''100'') = Some (- 5)
   \<and> py_int (args_get [''mb'' \<mapsto> ''-5'', ''chunk'' \<mapsto> ''0''] ''mb'' ''0'') = Some (- 5)
   \<and> (\<exists>r. mem_add 0 [''mb'' \<mapsto> ''-5'', ''chunk'' \<mapsto> ''0''] [[Bytearray 1048576]]
            = Some ([[Bytearray 1048576]], Inr (Rejected r)))
   \<and> (\<exists>r. mem_free [''mb'' \<mapsto> ''-5'', ''chunk'' \<mapsto> ''0''] [[Bytearray 1048576]]
            = ([[Bytearray 1048576]], Rejected r))
   \<and> (\<exists>r. mem_set 0 [''mb'' \<mapsto> ''-5'', ''chunk'' \<mapsto> ''0''] [[Bytearray 1048576]]
            = Some ([[Bytearray 1048576]], Inr (Rejected r)))"
proof -
  let ?a = "[''mb'' \<mapsto> ''1.5'']" and ?b = "[''mb'' \<mapsto> ''-5'', ''chunk'' \<mapsto> ''0'']"
  have a: "ascii_text (args_get ?a ''mb'' ''100'')" "py_int (args_get ?a ''mb'' ''100'') = None"
    "ascii_text (args_get ?a ''mb'' ''0'')" "py_int (args_get ?a ''mb'' ''0'') = None"
    by (simp_all add: request_eval ascii_text_def)
  have b: "py_int (args_get ?b ''mb'' ''100'') = Some (- 5)"
    "py_int (args_get ?b ''mb'' ''0'') = Some (- 5)"
    by (simp_all add: request_eval)
  from invalid_input_rejected [of ?a 0 "[[Bytearray 1048576]]"] a
  have "(\<exists>r. mem_add 0 ?a [[Bytearray 1048576]] = Some ([[Bytearray 1048576]], Inr (Rejected r)))
      \<and> (\<exists>r. mem_free ?a [[Bytearray 1048576]] = ([[Bytearray 1048576]], Rejected r))
      \<and> (\<exists>r. mem_set 0 ?a [[Bytearray 1048576]] = Some ([[Bytearray 1048576]], Inr (Rejected r)))"
    by auto
  moreover from invalid_input_rejected [of ?b 0 "[[Bytearray 1048576]]"] b
  have "(\<exists>r. mem_add 0 ?b [[Bytearray 1048576]] = Some ([[Bytearray 1048576]], Inr (Rejected r)))
      \<and> (\<exists>r. mem_free ?b [[Bytearray 1048576]] = ([[Bytearray 1048576]], Rejected r))
      \<and> (\<exists>r. mem_set 0 ?b [[Bytearray 1048576]] = Some ([[Bytearray 1048576]], Inr (Rejected r)))"
    by auto
  ultimately show ?thesis using a b by simp
qed

section \<open>Grow, then Shrink\<close>

lemma free_blocks_all:
  "list_all whole_mb bs \<Longrightarrow> free_blocks bs (blocks_mb bs) = ([], 0)"
proof (induction bs rule: rev_induct)
  case Nil
  show ?case by (simp add: free_blocks_stop)
next
  case (snoc b bs)
  then have w: "1 \<le> block_mb b" by (simp add: whole_mb_block_mb)
  have "0 \<le> blocks_mb bs" by (rule blocks_mb_nonneg)
  with w have "0 < blocks_mb (bs @ [b])" by simp
  then have "free_blocks (bs @ [b]) (blocks_mb (bs @ [b]))
      = free_blocks bs (blocks_mb (bs @ [b]) - block_mb b)"
    by (simp add: free_blocks_pop)
  with snoc show ?case by simp
qed

lemma free_groups_last_group:
  assumes "list_all whole_mb bs" "bs \<noteq> []"
  shows "free_groups (chunks @ [bs]) (blocks_mb bs) = (chunks, 0)"
proof -
  have "0 < blocks_mb bs" using assms by (rule blocks_mb_pos)
  moreover have "free_blocks (last (chunks @ [bs])) (blocks_mb bs) = ([], 0)"
    using assms by (simp add: free_blocks_all)
  ultimately have "free_groups (chunks @ [bs]) (blocks_mb bs)
      = free_groups (butlast (chunks @ [bs])) 0"
    by (intro free_groups_drop) simp_all
  then show ?thesis by (simp add: free_groups_stop)
qed

text \<open>
  C6. A valid Grow of \<open>mb\<close> (whose memory the platform can reserve), followed at once by
  a Shrink of the same \<open>mb\<close>, gives back the pool that was there before the Grow, so the
  total that the Shrink reports is the total before the Grow.
\<close>

theorem grow_shrink_round_trip:
  assumes "py_int (args_get args ''mb'' ''100'') = Some mb"
    and "py_int (args_get args ''chunk'' ''8'') = Some chunk"
    and "0 < mb" "mb \<le> 4096" "0 < chunk"
    and "mb * 1048576 \<le> int cap"
    and "py_int (args_get args' ''mb'' ''0'') = Some mb"
  shows "\<exists>chunks'. mem_add cap args chunks
           = Some (chunks', Inr (AddOk mb chunk (current_mb chunks + mb)))
         \<and> mem_free args' chunks' = (chunks, FreeOk mb (current_mb chunks))"
proof -
  let ?new = "blocks_of chunk mb"
  have add: "mem_add cap args chunks
      = Some (chunks @ [?new], Inr (AddOk mb chunk (current_mb chunks + mb)))"
    using assms by (simp add: mem_add_valid)
  have new: "list_all whole_mb ?new" "blocks_mb ?new = mb" "?new \<noteq> []"
    using assms blocks_of_props [of chunk mb] by (simp_all add: blocks_of_nonempty)
  then have "free_groups (chunks @ [?new]) mb = (chunks, 0)"
    using free_groups_last_group [of ?new chunks] by simp
  then have "mem_free args' (chunks @ [?new]) = (chunks, FreeOk mb (current_mb chunks))"
    using assms by (simp add: mem_free_valid)
  with add show ?thesis by simp
qed

theorem grow_shrink_round_trip_witness:
  "py_int (args_get [''mb'' \<mapsto> ''300'', ''chunk'' \<mapsto> ''7''] ''mb'' ''100'') = Some 300
   \<and> py_int (args_get [''mb'' \<mapsto> ''300'', ''chunk'' \<mapsto> ''7''] ''chunk'' ''8'') = Some 7
   \<and> (300::int) * 1048576 \<le> int 314572800
   \<and> py_int (args_get [''mb'' \<mapsto> ''300''] ''mb'' ''0'') = Some 300
   \<and> (\<exists>chunks'. mem_add 314572800 [''mb'' \<mapsto> ''300'', ''chunk'' \<mapsto> ''7''] [[Bytearray 1048576]]
           = Some (chunks', Inr (AddOk 300 7 301))
         \<and> mem_free [''mb'' \<mapsto> ''300''] chunks' = ([[Bytearray 1048576]], FreeOk 300 1))"
proof -
  let ?args = "[''mb'' \<mapsto> ''300'', ''chunk'' \<mapsto> ''7'']"
  have a: "py_int (args_get ?args ''mb'' ''100'') = Some 300"
    by (simp add: request_eval)
  have b: "py_int (args_get ?args ''chunk'' ''8'') = Some 7"
    by (simp add: request_eval)
  have c: "(300::int) * 1048576 \<le> int 314572800" by simp
  have d: "py_int (args_get [''mb'' \<mapsto> ''300''] ''mb'' ''0'') = Some 300"
    by (simp add: request_eval)
  have e: "current_mb [[Bytearray 1048576]] = 1" by (simp add: current_mb_def)
  from grow_shrink_round_trip [OF a b _ _ _ c d, of "[[Bytearray 1048576]]"] a b c d e
  show ?thesis by simp
qed

text \<open>
  C10. A valid Shrink of \<open>mb > 0\<close> leaves a total of at most
  \<open>max 0 (previous total - mb)\<close>. The bound is not always met with equality: the loop
  pops whole blocks, and from a pool of one block of 8 MiB a Shrink of 1 leaves 0, which
  is below \<open>8 - 1\<close>.
\<close>

theorem shrink_bound:
  "(py_int (args_get args ''mb'' ''0'') = Some mb \<and> 0 < mb
     \<longrightarrow> (\<exists>chunks'. mem_free args chunks = (chunks', FreeOk mb (current_mb chunks'))
            \<and> current_mb chunks' \<le> max 0 (current_mb chunks - mb)))
   \<and> current_mb [[Bytearray 8388608]] = 8
   \<and> mem_free [''mb'' \<mapsto> ''1''] [[Bytearray 8388608]] = ([], FreeOk 1 0)"
proof (intro conjI impI)
  assume a: "py_int (args_get args ''mb'' ''0'') = Some mb \<and> 0 < mb"
  obtain chunks' r where fg: "free_groups chunks mb = (chunks', r)"
    by (cases "free_groups chunks mb")
  from free_groups_concat [OF fg] obtain popped where
    p: "concat chunks = concat chunks' @ popped" "r = mb - blocks_mb popped" by blast
  have le: "current_mb chunks' + blocks_mb popped \<le> current_mb chunks"
    using p(1) by (rule current_mb_removed)
  have "current_mb chunks' \<le> max 0 (current_mb chunks - mb)"
  proof (cases "chunks' = []")
    case True
    then show ?thesis by (simp add: current_mb_empty)
  next
    case False
    with free_groups_exit [OF fg] have "r \<le> 0" by simp
    with p le show ?thesis by simp
  qed
  moreover have "mem_free args chunks = (chunks', FreeOk mb (current_mb chunks'))"
    using a fg by (simp add: mem_free_valid)
  ultimately show "\<exists>chunks'. mem_free args chunks = (chunks', FreeOk mb (current_mb chunks'))
            \<and> current_mb chunks' \<le> max 0 (current_mb chunks - mb)"
    by blast
next
  show "current_mb [[Bytearray 8388608]] = 8" by (simp add: current_mb_def)
next
  have "py_int (args_get [''mb'' \<mapsto> ''1''] ''mb'' ''0'') = Some 1"
    by (simp add: request_eval)
  moreover have "free_blocks [Bytearray 8388608] 1 = ([], - 7)"
    by (simp add: free_blocks_pop free_blocks_stop block_mb_def)
  then have "free_groups [[Bytearray 8388608]] 1 = ([], - 7)"
    using free_groups_drop [of 1 "[[Bytearray 8388608]]" "- 7"]
    by (simp add: free_groups_stop)
  ultimately show "mem_free [''mb'' \<mapsto> ''1''] [[Bytearray 8388608]] = ([], FreeOk 1 0)"
    by (simp add: mem_free_valid current_mb_empty)
qed

theorem shrink_bound_witness:
  "py_int (args_get [''mb'' \<mapsto> ''1''] ''mb'' ''0'') = Some 1
   \<and> (\<exists>chunks'. mem_free [''mb'' \<mapsto> ''1''] [[Bytearray 3145728]]
         = (chunks', FreeOk 1 (current_mb chunks'))
       \<and> current_mb chunks' \<le> max 0 (current_mb [[Bytearray 3145728]] - 1))"
proof -
  have a: "py_int (args_get [''mb'' \<mapsto> ''1''] ''mb'' ''0'') = Some 1"
    by (simp add: request_eval)
  from shrink_bound [of "[''mb'' \<mapsto> ''1'']" 1 "[[Bytearray 3145728]]"] a
  show ?thesis by simp
qed

section \<open>What a handler can do to the pool\<close>

lemma mem_add_cases:
  assumes "mem_add cap args chunks = Some (chunks', out)"
  shows "chunks' = chunks
    \<or> (\<exists>mb chunk. 0 < mb \<and> 0 < chunk \<and> chunks' = chunks @ [blocks_of chunk mb])"
proof (cases "py_int (args_get args ''mb'' ''100'')")
  case None
  with assms show ?thesis by (simp add: mem_add_def)
next
  case (Some mb)
  note mb = this
  show ?thesis
  proof (cases "py_int (args_get args ''chunk'' ''8'')")
    case None
    with mb assms show ?thesis by (simp add: mem_add_def)
  next
    case (Some chunk)
    show ?thesis
    proof (cases "0 < mb \<and> mb \<le> 4096 \<and> 0 < chunk")
      case True
      with mb Some assms show ?thesis
        by (auto simp: mem_add_valid split: if_splits)
    next
      case False
      with mb Some assms show ?thesis by (auto simp: mem_add_def split: if_splits)
    qed
  qed
qed

lemma mem_set_cases:
  assumes "mem_set cap args chunks = Some (chunks', out)"
  shows "chunks' = chunks
    \<or> (\<exists>mb. 0 < mb \<and> chunks' = chunks @ [blocks_of 8 mb])
    \<or> (\<exists>remain. chunks' = fst (free_groups chunks remain))"
proof (cases "py_int (args_get args ''mb'' ''0'')")
  case None
  with assms show ?thesis by (simp add: mem_set_def)
next
  case (Some target)
  consider "target < 0" | "target = current_mb chunks" | "current_mb chunks < target"
    | "0 \<le> target" "target < current_mb chunks" by linarith
  then show ?thesis
  proof cases
    case 1
    with Some assms show ?thesis by (simp add: mem_set_def)
  next
    case 2
    with Some assms current_mb_nonneg [of chunks] show ?thesis by (simp add: mem_set_def)
  next
    case 3
    then have pos: "0 < target - current_mb chunks" by simp
    from 3 Some assms have "chunks' = chunks
        \<or> chunks' = chunks @ [blocks_of 8 (target - current_mb chunks)]"
      by (auto simp: mem_set_up split: if_splits)
    with pos show ?thesis by blast
  next
    case 4
    with Some assms show ?thesis by (auto simp: mem_set_down)
  qed
qed

lemma mem_free_cases:
  "fst (mem_free args chunks) = chunks
   \<or> (\<exists>remain. fst (mem_free args chunks) = fst (free_groups chunks remain))"
  by (cases "py_int (args_get args ''mb'' ''0'')") (auto simp: mem_free_def Let_def)

lemma mem_clear_pool: "fst (mem_clear chunks) = []"
  by (simp add: mem_clear_def)

section \<open>Invariants of the pool\<close>

lemma no_empty_group_grow:
  "no_empty_group chunks \<Longrightarrow> 0 < chunk_mb \<Longrightarrow> 0 < mb \<Longrightarrow>
   no_empty_group (chunks @ [blocks_of chunk_mb mb])"
  by (simp add: no_empty_group_def blocks_of_nonempty)

lemma pool_ok_empty: "pool_ok []"
  by (simp add: pool_ok_def no_empty_group_def)

lemma pool_ok_grow:
  assumes "pool_ok chunks" "0 < chunk_mb" "0 < mb"
  shows "pool_ok (chunks @ [blocks_of chunk_mb mb])"
  using assms blocks_of_props [of chunk_mb mb]
  by (simp add: pool_ok_def no_empty_group_grow)

lemma pool_ok_free_groups:
  assumes "pool_ok chunks"
  shows "pool_ok (fst (free_groups chunks remain))"
proof -
  obtain chunks' r where fg: "free_groups chunks remain = (chunks', r)"
    by (cases "free_groups chunks remain")
  from free_groups_concat [OF fg] obtain popped where
    "concat chunks = concat chunks' @ popped" by blast
  with assms have "list_all whole_mb (concat chunks')" by (simp add: pool_ok_def)
  moreover from assms fg have "no_empty_group chunks'"
    using free_groups_no_empty by (simp add: pool_ok_def)
  ultimately show ?thesis using fg by (simp add: pool_ok_def)
qed

lemma pool_ok_mem_add:
  "pool_ok chunks \<Longrightarrow> mem_add cap args chunks = Some (chunks', out) \<Longrightarrow> pool_ok chunks'"
  using mem_add_cases [of cap args chunks chunks' out] by (auto simp: pool_ok_grow)

lemma pool_ok_mem_set:
  "pool_ok chunks \<Longrightarrow> mem_set cap args chunks = Some (chunks', out) \<Longrightarrow> pool_ok chunks'"
  using mem_set_cases [of cap args chunks chunks' out]
  by (auto simp: pool_ok_grow pool_ok_free_groups)

lemma pool_ok_mem_free: "pool_ok chunks \<Longrightarrow> pool_ok (fst (mem_free args chunks))"
  using mem_free_cases [of args chunks] by (auto simp: pool_ok_free_groups)

lemma pool_ok_mem_clear: "pool_ok (fst (mem_clear chunks))"
  by (simp add: mem_clear_pool pool_ok_empty)

lemma reachable_pool_ok: "reachable chunks \<Longrightarrow> pool_ok chunks"
proof (induction rule: reachable.induct)
  case start
  show ?case by (simp add: initial_chunks_def pool_ok_empty)
next
  case (add chunks cap args chunks' out)
  then show ?case by (simp add: pool_ok_mem_add)
next
  case (set chunks cap args chunks' out)
  then show ?case by (simp add: pool_ok_mem_set)
next
  case (free chunks args chunks' resp)
  then show ?case using pool_ok_mem_free [of chunks args] by simp
next
  case (clear chunks chunks' resp)
  then show ?case using pool_ok_mem_clear [of chunks] by simp
qed

lemma reachable_two_blocks: "reachable [[Bytearray 1048576, Bytearray 1048576]]"
proof -
  let ?args = "[''mb'' \<mapsto> ''2'', ''chunk'' \<mapsto> ''1'']"
  have "py_int (args_get ?args ''mb'' ''100'') = Some 2"
    and "py_int (args_get ?args ''chunk'' ''8'') = Some 1"
    by (simp_all add: request_eval)
  then have "mem_add 2097152 ?args [] =
      Some ([[Bytearray 1048576, Bytearray 1048576]], Inr (AddOk 2 1 2))"
    by (simp add: mem_add_valid blocks_of_def current_mb_def numeral_2_eq_2)
  with reachable.start show ?thesis
    unfolding initial_chunks_def by (rule reachable.add)
qed

text \<open>
  C9. In every pool that the handlers can produce from the empty start, no group is
  empty; and from such a pool each of Grow, Converge, Shrink and Clear returns and leaves
  a pool without an empty group. (The status query does not change the pool.)
\<close>

theorem no_group_left_empty:
  assumes "reachable chunks"
  shows "no_empty_group chunks
    \<and> (\<exists>chunks' out. mem_add cap args chunks = Some (chunks', out) \<and> no_empty_group chunks')
    \<and> (\<exists>chunks' out. mem_set cap args chunks = Some (chunks', out) \<and> no_empty_group chunks')
    \<and> no_empty_group (fst (mem_free args chunks))
    \<and> no_empty_group (fst (mem_clear chunks))"
proof (intro conjI)
  from assms have ok: "pool_ok chunks" by (rule reachable_pool_ok)
  then show "no_empty_group chunks" by (simp add: pool_ok_def)
  obtain c1 o1 where a: "mem_add cap args chunks = Some (c1, o1)"
    using mem_add_returns [of cap args chunks] by (cases "mem_add cap args chunks") auto
  with ok have "pool_ok c1" by (rule pool_ok_mem_add)
  with a show "\<exists>chunks' out. mem_add cap args chunks = Some (chunks', out) \<and> no_empty_group chunks'"
    by (auto simp: pool_ok_def)
  obtain c2 o2 where s: "mem_set cap args chunks = Some (c2, o2)"
    using mem_set_returns [of cap args chunks] by (cases "mem_set cap args chunks") auto
  with ok have "pool_ok c2" by (rule pool_ok_mem_set)
  with s show "\<exists>chunks' out. mem_set cap args chunks = Some (chunks', out) \<and> no_empty_group chunks'"
    by (auto simp: pool_ok_def)
  from ok show "no_empty_group (fst (mem_free args chunks))"
    using pool_ok_mem_free [of chunks args] by (simp add: pool_ok_def)
  show "no_empty_group (fst (mem_clear chunks))"
    using pool_ok_mem_clear [of chunks] by (simp add: pool_ok_def)
qed

theorem no_group_left_empty_witness:
  "reachable [[Bytearray 1048576, Bytearray 1048576]]
   \<and> no_empty_group [[Bytearray 1048576, Bytearray 1048576]]
   \<and> no_empty_group (fst (mem_free [''mb'' \<mapsto> ''2''] [[Bytearray 1048576, Bytearray 1048576]]))"
  using no_group_left_empty [OF reachable_two_blocks, of 0 "[''mb'' \<mapsto> ''2'']"]
    reachable_two_blocks by simp

text \<open>
  C7. From a pool that the handlers can produce, a Shrink of \<open>mb > 0\<close> with \<open>mb\<close> at
  least the current total is answered with success (status 200), and it leaves the pool
  without any group, with total 0.
\<close>

theorem shrink_over_request_empties:
  assumes "reachable chunks"
    and "py_int (args_get args ''mb'' ''0'') = Some mb"
    and "0 < mb" "current_mb chunks \<le> mb"
  shows "mem_free args chunks = ([], FreeOk mb 0)
    \<and> status_code (FreeOk mb 0) = 200
    \<and> mem_status [] = Status 0 0"
proof -
  from assms have ok: "pool_ok chunks" by (simp add: reachable_pool_ok)
  obtain chunks' r where fg: "free_groups chunks mb = (chunks', r)"
    by (cases "free_groups chunks mb")
  from free_groups_concat [OF fg] obtain popped where
    p: "concat chunks = concat chunks' @ popped" "r = mb - blocks_mb popped" by blast
  have ok': "pool_ok chunks'"
    using pool_ok_free_groups [OF ok, of mb] fg by simp
  have "chunks' = []"
  proof (rule ccontr)
    assume ne: "chunks' \<noteq> []"
    with free_groups_exit [OF fg] have "r \<le> 0" by simp
    from ok have "current_mb chunks = blocks_mb (concat chunks)"
      by (simp add: pool_ok_def current_mb_whole)
    with p assms \<open>r \<le> 0\<close> have "blocks_mb (concat chunks') \<le> 0" by simp
    moreover from ne ok' have "concat chunks' \<noteq> []"
      by (cases chunks') (auto simp: pool_ok_def no_empty_group_def)
    with ok' have "0 < blocks_mb (concat chunks')"
      by (simp add: pool_ok_def blocks_mb_pos)
    ultimately show False by simp
  qed
  with fg assms show ?thesis
    by (simp add: mem_free_valid current_mb_empty mem_status_def)
qed

theorem shrink_over_request_empties_witness:
  "reachable [[Bytearray 1048576, Bytearray 1048576]]
   \<and> py_int (args_get [''mb'' \<mapsto> ''5''] ''mb'' ''0'') = Some 5
   \<and> current_mb [[Bytearray 1048576, Bytearray 1048576]] \<le> 5
   \<and> mem_free [''mb'' \<mapsto> ''5''] [[Bytearray 1048576, Bytearray 1048576]] = ([], FreeOk 5 0)"
proof -
  have a: "py_int (args_get [''mb'' \<mapsto> ''5''] ''mb'' ''0'') = Some 5"
    by (simp add: request_eval)
  have b: "current_mb [[Bytearray 1048576, Bytearray 1048576]] \<le> 5"
    by (simp add: current_mb_def)
  from shrink_over_request_empties [OF reachable_two_blocks a _ b] reachable_two_blocks a b
  show ?thesis by simp
qed

text \<open>
  C8. A Converge to a target below the current total (and not negative) returns, and the
  pool it leaves is the old pool with its most recent blocks removed: the blocks that
  remain are the oldest ones, unchanged and in their order (a prefix of the old sequence
  of blocks), the older groups are untouched and the last remaining group is a prefix of
  the group it was. The total it reports is at most the target.
\<close>

theorem converge_down:
  assumes "py_int (args_get args ''mb'' ''0'') = Some target"
    and "0 \<le> target" "target < current_mb chunks"
  shows "\<exists>chunks'. mem_set cap args chunks = Some (chunks', Inr (SetOk (current_mb chunks')))
    \<and> current_mb chunks' \<le> target
    \<and> prefix (concat chunks') (concat chunks)
    \<and> (chunks' = []
       \<or> (\<exists>k g. k < length chunks \<and> chunks' = take k chunks @ [g] \<and> prefix g (chunks ! k)))"
proof -
  let ?to_free = "current_mb chunks - target"
  obtain chunks' r where fg: "free_groups chunks ?to_free = (chunks', r)"
    by (cases "free_groups chunks ?to_free")
  from free_groups_concat [OF fg] obtain popped where
    p: "concat chunks = concat chunks' @ popped" "r = ?to_free - blocks_mb popped" by blast
  have le: "current_mb chunks' + blocks_mb popped \<le> current_mb chunks"
    using p(1) by (rule current_mb_removed)
  have "current_mb chunks' \<le> target"
  proof (cases "chunks' = []")
    case True
    with assms show ?thesis by (simp add: current_mb_empty)
  next
    case False
    with free_groups_exit [OF fg] have "r \<le> 0" by simp
    with p le show ?thesis by simp
  qed
  moreover have "prefix (concat chunks') (concat chunks)"
    using p(1) by (simp add: prefix_def)
  moreover note free_groups_shape [OF fg]
  moreover have "mem_set cap args chunks = Some (chunks', Inr (SetOk (current_mb chunks')))"
    using assms fg by (simp add: mem_set_down)
  ultimately show ?thesis by blast
qed

theorem converge_down_witness:
  "py_int (args_get [''mb'' \<mapsto> ''1''] ''mb'' ''0'') = Some 1
   \<and> 1 < current_mb [[Bytearray 1048576, Bytearray 1048576]]
   \<and> (\<exists>chunks'. mem_set 0 [''mb'' \<mapsto> ''1''] [[Bytearray 1048576, Bytearray 1048576]]
          = Some (chunks', Inr (SetOk (current_mb chunks')))
        \<and> current_mb chunks' \<le> 1
        \<and> prefix (concat chunks') [Bytearray 1048576, Bytearray 1048576])"
proof -
  have a: "py_int (args_get [''mb'' \<mapsto> ''1''] ''mb'' ''0'') = Some 1"
    by (simp add: request_eval)
  have b: "1 < current_mb [[Bytearray 1048576, Bytearray 1048576]]"
    by (simp add: current_mb_def)
  from converge_down [OF a _ b, of 0] a b show ?thesis by auto
qed

text \<open>
  C2, as stated, does not hold: Converge to a target above the current total is not a
  Grow of the difference when the difference is above 4096. From the empty pool and with
  room for 4097 MiB, a Grow of 4097 is rejected by the limit of \<open>mem_add\<close> and leaves the
  pool empty, while a Converge to 4097 builds the group.
\<close>

theorem converge_grow_counterexample:
  "mem_add 4296015872 [''mb'' \<mapsto> ''4097''] [] = Some ([], Inr (Rejected AddLimit4096))
   \<and> mem_set 4296015872 [''mb'' \<mapsto> ''4097''] []
     = Some ([replicate 512 (Bytearray 8388608) @ [Bytearray 1048576]], Inr (SetOk 4097))"
proof
  show "mem_add 4296015872 [''mb'' \<mapsto> ''4097''] [] = Some ([], Inr (Rejected AddLimit4096))"
    by (simp add: mem_add_def request_eval)
  have "py_int (args_get [''mb'' \<mapsto> ''4097''] ''mb'' ''0'') = Some 4097"
    by (simp add: request_eval)
  moreover have "current_mb [] < 4097" by (simp add: current_mb_empty)
  ultimately have "mem_set 4296015872 [''mb'' \<mapsto> ''4097''] []
     = Some ([] @ [blocks_of 8 (4097 - current_mb [])], Inr (SetOk 4097))"
    by (simp add: mem_set_up current_mb_empty)
  then show "mem_set 4296015872 [''mb'' \<mapsto> ''4097''] []
     = Some ([replicate 512 (Bytearray 8388608) @ [Bytearray 1048576]], Inr (SetOk 4097))"
    by (simp add: current_mb_empty blocks_of_def)
qed

text \<open>
  C2, as the code has it. Let the target be above the current total, and compare
  Converge to the target with the Grow request for the difference that names no chunk
  size. When the difference is at most 4096 the two do the same: with enough memory both
  append the same group and report the target as the total, and without it both end
  with \<open>MemoryError\<close> and the pool unchanged. When the difference is above 4096 the Grow
  is rejected for its limit and leaves the pool unchanged, while the Converge still
  allocates: it reaches the target if the memory can be reserved.
\<close>

theorem converge_up_is_grow_within_limit:
  assumes "py_int (args_get sargs ''mb'' ''0'') = Some target"
    and "py_int (args_get gargs ''mb'' ''100'') = Some (target - current_mb chunks)"
    and "gargs ''chunk'' = None"
    and "current_mb chunks < target"
  shows "(target - current_mb chunks \<le> 4096 \<longrightarrow>
      (if (target - current_mb chunks) * 1048576 \<le> int cap
       then \<exists>chunks'.
              mem_set cap sargs chunks = Some (chunks', Inr (SetOk target))
            \<and> mem_add cap gargs chunks
                = Some (chunks', Inr (AddOk (target - current_mb chunks) 8 target))
       else mem_set cap sargs chunks = Some (chunks, Inl MemoryError)
          \<and> mem_add cap gargs chunks = Some (chunks, Inl MemoryError)))
    \<and> (4096 < target - current_mb chunks \<longrightarrow>
        mem_add cap gargs chunks = Some (chunks, Inr (Rejected AddLimit4096))
      \<and> (if (target - current_mb chunks) * 1048576 \<le> int cap
         then \<exists>chunks'. mem_set cap sargs chunks = Some (chunks', Inr (SetOk target))
              \<and> current_mb chunks' = target \<and> length chunks' = length chunks + 1
         else mem_set cap sargs chunks = Some (chunks, Inl MemoryError)))"
proof (intro conjI impI)
  let ?d = "target - current_mb chunks"
  have chunk: "py_int (args_get gargs ''chunk'' ''8'') = Some 8"
    using assms(3) by (simp add: request_eval)
  have pos: "0 < ?d" using assms(4) by simp
  have set: "mem_set cap sargs chunks =
     (if ?d * 1048576 \<le> int cap
      then Some (chunks @ [blocks_of 8 ?d], Inr (SetOk target))
      else Some (chunks, Inl MemoryError))"
    using assms(1,4) by (rule mem_set_up)
  {
    assume small: "?d \<le> 4096"
    have "mem_add cap gargs chunks =
       (if ?d * 1048576 \<le> int cap
        then Some (chunks @ [blocks_of 8 ?d], Inr (AddOk ?d 8 (current_mb chunks + ?d)))
        else Some (chunks, Inl MemoryError))"
      using assms(2) chunk pos small by (intro mem_add_valid) simp_all
    with set show "if ?d * 1048576 \<le> int cap
       then \<exists>chunks'.
              mem_set cap sargs chunks = Some (chunks', Inr (SetOk target))
            \<and> mem_add cap gargs chunks = Some (chunks', Inr (AddOk ?d 8 target))
       else mem_set cap sargs chunks = Some (chunks, Inl MemoryError)
          \<and> mem_add cap gargs chunks = Some (chunks, Inl MemoryError)"
      by simp
  }
  {
    assume big: "4096 < ?d"
    with assms(2) chunk show "mem_add cap gargs chunks = Some (chunks, Inr (Rejected AddLimit4096))"
      by (simp add: mem_add_def)
    have "current_mb (chunks @ [blocks_of 8 ?d]) = target"
      using pos current_mb_grow [of 8 ?d chunks] by simp
    with set show "if ?d * 1048576 \<le> int cap
         then \<exists>chunks'. mem_set cap sargs chunks = Some (chunks', Inr (SetOk target))
              \<and> current_mb chunks' = target \<and> length chunks' = length chunks + 1
         else mem_set cap sargs chunks = Some (chunks, Inl MemoryError)"
      by simp
  }
qed

theorem converge_up_is_grow_within_limit_witness:
  "py_int (args_get [''mb'' \<mapsto> ''5''] ''mb'' ''0'') = Some 5
   \<and> py_int (args_get [''mb'' \<mapsto> ''4''] ''mb'' ''100'') = Some (5 - current_mb [[Bytearray 1048576]])
   \<and> [''mb'' \<mapsto> ''4''] ''chunk'' = None
   \<and> current_mb [[Bytearray 1048576]] < 5
   \<and> (\<exists>chunks'.
          mem_set 4194304 [''mb'' \<mapsto> ''5''] [[Bytearray 1048576]] = Some (chunks', Inr (SetOk 5))
        \<and> mem_add 4194304 [''mb'' \<mapsto> ''4''] [[Bytearray 1048576]] = Some (chunks', Inr (AddOk 4 8 5)))"
proof -
  have e: "current_mb [[Bytearray 1048576]] = 1" by (simp add: current_mb_def)
  have a: "py_int (args_get [''mb'' \<mapsto> ''5''] ''mb'' ''0'') = Some 5"
    by (simp add: request_eval)
  have b: "py_int (args_get [''mb'' \<mapsto> ''4''] ''mb'' ''100'') = Some (5 - current_mb [[Bytearray 1048576]])"
    by (simp add: request_eval e)
  have c: "[''mb'' \<mapsto> ''4''] ''chunk'' = None" by simp
  have d: "current_mb [[Bytearray 1048576]] < 5" by (simp add: e)
  from converge_up_is_grow_within_limit [OF a b c d, of 4194304] a b c d e
  show ?thesis by simp
qed

section \<open>A run of requests\<close>

lemma free_blocks_pop_last:
  "0 < remain \<Longrightarrow> free_blocks (bs @ [b]) remain = free_blocks bs (remain - block_mb b)"
  by (simp add: free_blocks_pop)

text \<open>Popping \<open>k\<close> equal blocks, when the counter is still positive before the last of them.\<close>

lemma free_blocks_replicate:
  "0 \<le> block_mb b \<Longrightarrow> int k * block_mb b < remain + block_mb b \<Longrightarrow>
   free_blocks (replicate (n + k) b) remain
     = free_blocks (replicate n b) (remain - int k * block_mb b)"
proof (induction k arbitrary: remain)
  case 0
  show ?case by simp
next
  case (Suc k)
  have "0 \<le> int k * block_mb b" using Suc.prems(1) by simp
  moreover have "int k * block_mb b < remain"
    using Suc.prems(2) by (simp add: algebra_simps)
  ultimately have pos: "0 < remain" by linarith
  have "replicate (n + Suc k) b = replicate (n + k) b @ [b]"
    by (simp add: replicate_append_same)
  with pos have "free_blocks (replicate (n + Suc k) b) remain
      = free_blocks (replicate (n + k) b) (remain - block_mb b)"
    by (simp only: free_blocks_pop_last)
  also have "\<dots> = free_blocks (replicate n b) (remain - block_mb b - int k * block_mb b)"
    using Suc.prems by (intro Suc.IH) (simp_all add: algebra_simps)
  finally show ?case by (simp add: algebra_simps)
qed

lemma scenario_shrink:
  "free_groups
     [replicate 37 (Bytearray 8388608) @ [Bytearray 4194304],
      replicate 12 (Bytearray 8388608) @ [Bytearray 4194304]] 250
   = ([replicate 18 (Bytearray 8388608)], - 6)"
proof -
  let ?b8 = "Bytearray 8388608" and ?b4 = "Bytearray 4194304"
  have m: "block_mb ?b8 = 8" "block_mb ?b4 = 4" by (simp_all add: block_mb_def)
  have "free_blocks (replicate 12 ?b8 @ [?b4]) 250 = free_blocks (replicate (0 + 12) ?b8) 246"
    by (simp add: free_blocks_pop_last m)
  also have "\<dots> = free_blocks (replicate 0 ?b8) (246 - int 12 * block_mb ?b8)"
    by (rule free_blocks_replicate) (simp_all add: m)
  also have "\<dots> = ([], 150)" by (simp add: free_blocks_stop m)
  finally have second: "free_blocks (replicate 12 ?b8 @ [?b4]) 250 = ([], 150)" .
  have "free_blocks (replicate 37 ?b8 @ [?b4]) 150 = free_blocks (replicate (18 + 19) ?b8) 146"
    by (simp add: free_blocks_pop_last m)
  also have "\<dots> = free_blocks (replicate 18 ?b8) (146 - int 19 * block_mb ?b8)"
    by (rule free_blocks_replicate) (simp_all add: m)
  also have "\<dots> = (replicate 18 ?b8, - 6)" by (simp add: free_blocks_stop m)
  finally have first: "free_blocks (replicate 37 ?b8 @ [?b4]) 150 = (replicate 18 ?b8, - 6)" .
  have "free_groups [replicate 37 ?b8 @ [?b4], replicate 12 ?b8 @ [?b4]] 250
      = free_groups [replicate 37 ?b8 @ [?b4]] 150"
    using free_groups_drop [of 250 "[replicate 37 ?b8 @ [?b4], replicate 12 ?b8 @ [?b4]]" 150]
      second by simp
  also have "\<dots> = ([replicate 18 ?b8], - 6)"
    using free_groups_keep [of 150 "[replicate 37 ?b8 @ [?b4]]" "replicate 18 ?b8" "- 6"]
      first by simp
  finally show ?thesis .
qed

lemma current_mb_18: "current_mb [replicate 18 (Bytearray 8388608)] = 144"
  by (simp add: current_mb_def sum_list_replicate)

lemma current_mb_37: "current_mb [replicate 37 (Bytearray 8388608) @ [Bytearray 4194304]] = 300"
  by (simp add: current_mb_def sum_list_replicate)

lemma current_mb_37_12:
  "current_mb [replicate 37 (Bytearray 8388608) @ [Bytearray 4194304],
               replicate 12 (Bytearray 8388608) @ [Bytearray 4194304]] = 400"
  by (simp add: current_mb_def sum_list_replicate)

text \<open>
  C4, as stated, does not hold: from the empty pool, Grow(300, chunk 8), Grow(100), then
  Shrink(250) do not leave a total of 150. The first group is 37 blocks of 8 MiB and one
  of 4 MiB, the second 12 blocks of 8 MiB and one of 4 MiB. The Shrink pops the whole
  second group (100), then from the first the block of 4 and 19 blocks of 8 (156): whole
  blocks only, so it frees 256 and the total is 144.
\<close>

theorem scenario_counterexample:
  "mem_add 536870912 [''mb'' \<mapsto> ''300'', ''chunk'' \<mapsto> ''8''] []
     = Some ([replicate 37 (Bytearray 8388608) @ [Bytearray 4194304]], Inr (AddOk 300 8 300))
   \<and> mem_add 536870912 [''mb'' \<mapsto> ''100'']
        [replicate 37 (Bytearray 8388608) @ [Bytearray 4194304]]
     = Some ([replicate 37 (Bytearray 8388608) @ [Bytearray 4194304],
              replicate 12 (Bytearray 8388608) @ [Bytearray 4194304]],
             Inr (AddOk 100 8 400))
   \<and> snd (mem_free [''mb'' \<mapsto> ''250'']
        [replicate 37 (Bytearray 8388608) @ [Bytearray 4194304],
         replicate 12 (Bytearray 8388608) @ [Bytearray 4194304]])
     \<noteq> FreeOk 250 150"
proof (intro conjI)
  let ?g1 = "replicate 37 (Bytearray 8388608) @ [Bytearray 4194304]"
  let ?g2 = "replicate 12 (Bytearray 8388608) @ [Bytearray 4194304]"
  have a1: "py_int (args_get [''mb'' \<mapsto> ''300'', ''chunk'' \<mapsto> ''8''] ''mb'' ''100'') = Some 300"
    and c1: "py_int (args_get [''mb'' \<mapsto> ''300'', ''chunk'' \<mapsto> ''8''] ''chunk'' ''8'') = Some 8"
    and a2: "py_int (args_get [''mb'' \<mapsto> ''100''] ''mb'' ''100'') = Some 100"
    and c2: "py_int (args_get [''mb'' \<mapsto> ''100''] ''chunk'' ''8'') = Some 8"
    and a3: "py_int (args_get [''mb'' \<mapsto> ''250''] ''mb'' ''0'') = Some 250"
    by (simp_all add: request_eval)
  have b1: "blocks_of 8 300 = ?g1" and b2: "blocks_of 8 100 = ?g2"
    by (simp_all add: blocks_of_def)
  show "mem_add 536870912 [''mb'' \<mapsto> ''300'', ''chunk'' \<mapsto> ''8''] []
      = Some ([?g1], Inr (AddOk 300 8 300))"
    using a1 c1 by (simp add: mem_add_valid b1 current_mb_empty)
  show "mem_add 536870912 [''mb'' \<mapsto> ''100''] [?g1] = Some ([?g1, ?g2], Inr (AddOk 100 8 400))"
    using a2 c2 by (simp add: mem_add_valid b2 current_mb_37)
  have "mem_free [''mb'' \<mapsto> ''250''] [?g1, ?g2]
      = ([replicate 18 (Bytearray 8388608)], FreeOk 250 144)"
    using a3 by (simp add: mem_free_valid scenario_shrink current_mb_18)
  then show "snd (mem_free [''mb'' \<mapsto> ''250''] [?g1, ?g2]) \<noteq> FreeOk 250 150"
    by simp
qed

text \<open>
  C4, as the code has it. From the empty pool (each Grow with room for 512 MiB):
  Grow(300, chunk 8) gives total 300 and 1 group; Grow(100) with the default chunk gives
  total 400 and 2 groups; Shrink(250) gives total 144 and 1 group; Clear gives total 0
  and no group.
\<close>

theorem scenario:
  "mem_add 536870912 [''mb'' \<mapsto> ''300'', ''chunk'' \<mapsto> ''8''] initial_chunks
     = Some ([replicate 37 (Bytearray 8388608) @ [Bytearray 4194304]], Inr (AddOk 300 8 300))
   \<and> mem_status [replicate 37 (Bytearray 8388608) @ [Bytearray 4194304]] = Status 300 1
   \<and> mem_add 536870912 [''mb'' \<mapsto> ''100'']
        [replicate 37 (Bytearray 8388608) @ [Bytearray 4194304]]
     = Some ([replicate 37 (Bytearray 8388608) @ [Bytearray 4194304],
              replicate 12 (Bytearray 8388608) @ [Bytearray 4194304]],
             Inr (AddOk 100 8 400))
   \<and> mem_status [replicate 37 (Bytearray 8388608) @ [Bytearray 4194304],
                  replicate 12 (Bytearray 8388608) @ [Bytearray 4194304]] = Status 400 2
   \<and> mem_free [''mb'' \<mapsto> ''250'']
        [replicate 37 (Bytearray 8388608) @ [Bytearray 4194304],
         replicate 12 (Bytearray 8388608) @ [Bytearray 4194304]]
     = ([replicate 18 (Bytearray 8388608)], FreeOk 250 144)
   \<and> mem_status [replicate 18 (Bytearray 8388608)] = Status 144 1
   \<and> mem_clear [replicate 18 (Bytearray 8388608)] = ([], ClearOk 0)
   \<and> mem_status [] = Status 0 0"
proof (intro conjI)
  let ?g1 = "replicate 37 (Bytearray 8388608) @ [Bytearray 4194304]"
  let ?g2 = "replicate 12 (Bytearray 8388608) @ [Bytearray 4194304]"
  have a1: "py_int (args_get [''mb'' \<mapsto> ''300'', ''chunk'' \<mapsto> ''8''] ''mb'' ''100'') = Some 300"
    and c1: "py_int (args_get [''mb'' \<mapsto> ''300'', ''chunk'' \<mapsto> ''8''] ''chunk'' ''8'') = Some 8"
    and a2: "py_int (args_get [''mb'' \<mapsto> ''100''] ''mb'' ''100'') = Some 100"
    and c2: "py_int (args_get [''mb'' \<mapsto> ''100''] ''chunk'' ''8'') = Some 8"
    and a3: "py_int (args_get [''mb'' \<mapsto> ''250''] ''mb'' ''0'') = Some 250"
    by (simp_all add: request_eval)
  have b1: "blocks_of 8 300 = ?g1" and b2: "blocks_of 8 100 = ?g2"
    by (simp_all add: blocks_of_def)
  show "mem_add 536870912 [''mb'' \<mapsto> ''300'', ''chunk'' \<mapsto> ''8''] initial_chunks
      = Some ([?g1], Inr (AddOk 300 8 300))"
    using a1 c1 by (simp add: mem_add_valid b1 initial_chunks_def current_mb_empty)
  show "mem_status [?g1] = Status 300 1"
    by (simp add: mem_status_def current_mb_37)
  show "mem_add 536870912 [''mb'' \<mapsto> ''100''] [?g1] = Some ([?g1, ?g2], Inr (AddOk 100 8 400))"
    using a2 c2 by (simp add: mem_add_valid b2 current_mb_37)
  show "mem_status [?g1, ?g2] = Status 400 2"
    by (simp add: mem_status_def current_mb_37_12)
  show "mem_free [''mb'' \<mapsto> ''250''] [?g1, ?g2] = ([replicate 18 (Bytearray 8388608)], FreeOk 250 144)"
    using a3 by (simp add: mem_free_valid scenario_shrink current_mb_18)
  show "mem_status [replicate 18 (Bytearray 8388608)] = Status 144 1"
    by (simp add: mem_status_def current_mb_18)
  show "mem_clear [replicate 18 (Bytearray 8388608)] = ([], ClearOk 0)"
    by (simp add: mem_clear_def current_mb_empty)
  show "mem_status [] = Status 0 0"
    by (simp add: mem_status_def current_mb_empty)
qed

end
